theory Spec2Isabelle
  imports Main "HOL-Library.AList" "HOL-Library.Multiset" "HOL-Library.List_Lexorder"
    "HOL-Library.Char_ord"
begin

section \<open>Python values\<close>

text \<open>
  The repositories are generic in the entity type and the criteria carry values of any
  type, so the model has one universe of dynamic values, as Python has: \<open>None\<close>,
  integers, strings, lists, dictionaries with string keys (an association list in
  insertion order), dataclass instances and objects of any other kind.
  A dataclass instance \<open>PObj fields attrs\<close> has its fields, in declaration order, and
  the attributes that are not fields: those of its class and of every object, such as
  \<open>__doc__\<close>, \<open>__module__\<close>, \<open>__class__\<close> and the methods. An instance attribute
  comes before a class attribute of the same name. \<open>POther\<close> is an object that only
  needs a name here, such as a bound method or a class.
  Booleans, floats, tuples and sets are left out, so that \<open>==\<close> of Python is equality
  here on \<open>None\<close>, integers, strings and lists of them; a dictionary is compared as the
  list of its items. Identities and indexed values are \<open>Hashable\<close> by the type
  annotations of the source: the \<open>TypeError\<close> of an unhashable dictionary key is not
  part of the model.
\<close>

datatype pyval =
    PNone
  | PInt int
  | PStr string
  | PList "pyval list"
  | PDict "(string \<times> pyval) list"
  | PObj "(string \<times> pyval) list" "(string \<times> pyval) list"
  | POther string

datatype error =
    BetweenArity
  | InNotList
  | UnsupportedOperator string
  | InvalidField string
  | MissingColumn string
  | InvalidSort string
  | TypeError
  | KeyError string

text \<open>The first six errors are the \<open>ValueError\<close>s the source raises.\<close>

fun is_ValueError :: "error \<Rightarrow> bool" where
  "is_ValueError TypeError = False"
| "is_ValueError (KeyError k) = False"
| "is_ValueError e = True"

text \<open>The errors about a name the mapper does not know.\<close>

fun is_name_error :: "error \<Rightarrow> bool" where
  "is_name_error (InvalidField n) = True"
| "is_name_error (MissingColumn n) = True"
| "is_name_error (InvalidSort n) = True"
| "is_name_error e = False"

text \<open>Truth value of an object, as \<open>if x\<close> and \<open>not x\<close> test it.\<close>

fun truthy :: "pyval \<Rightarrow> bool" where
  "truthy PNone = False"
| "truthy (PInt i) = (i \<noteq> 0)"
| "truthy (PStr s) = (s \<noteq> [])"
| "truthy (PList xs) = (xs \<noteq> [])"
| "truthy (PDict kvs) = (kvs \<noteq> [])"
| "truthy (PObj fs attrs) = True"
| "truthy (POther name) = True"

text \<open>\<open>d.get(k)\<close> of a dictionary whose values are Python values: \<open>None\<close> when absent.\<close>

definition dict_get :: "('k \<times> pyval) list \<Rightarrow> 'k \<Rightarrow> pyval" where
  "dict_get d k = (case map_of d k of None \<Rightarrow> PNone | Some v \<Rightarrow> v)"

section \<open>The in-memory repository\<close>

text \<open>
  \<open>_get_field_value\<close>: a dict entity is read by key, anything else by attribute, with
  \<open>None\<close> when the key or attribute is missing. \<open>getattr\<close> finds every attribute of the
  entity, not only the fields of a dataclass: a name such as \<open>__doc__\<close> is read from
  the class. The last equation is for a value that is no entity (a number, a string, a
  list): the attributes of these builtin types are not part of the model.
\<close>

fun get_field_value :: "pyval \<Rightarrow> string \<Rightarrow> pyval" where
  "get_field_value (PDict kvs) field = dict_get kvs field"
| "get_field_value (PObj fs attrs) field =
     (case map_of fs field of Some v \<Rightarrow> v | None \<Rightarrow> dict_get attrs field)"
| "get_field_value e field = PNone"

text \<open>
  The state of a \<open>MemoryRepository\<close>. The three dictionaries keep Python's insertion
  order: assigning to a present key keeps its position (\<open>AList.update\<close>), a new key goes
  last, \<open>pop\<close> removes the key (\<open>AList.delete\<close>).
\<close>

record memory_repo =
  id_getter :: "pyval \<Rightarrow> pyval"
  items :: "(pyval \<times> pyval) list"
  indexes :: "(string \<times> (pyval \<times> pyval) list) list"
  extractors :: "(string \<times> (pyval \<Rightarrow> pyval)) list"

definition MemoryRepository_init ::
  "(pyval \<Rightarrow> pyval) \<Rightarrow> (string \<times> (pyval \<Rightarrow> pyval)) list \<Rightarrow> memory_repo" where
  "MemoryRepository_init idg unique_indexes =
     \<lparr> id_getter = idg,
       items = [],
       indexes = map (\<lambda>(k, ext). (k, [])) unique_indexes,
       extractors = unique_indexes \<rparr>"

text \<open>
  The loop \<open>for name, ext in self._extractors.items(): self._indexes[name][ext(entity)] = eid\<close>
  shared by \<open>add\<close> and \<open>update\<close>; \<open>self._indexes[name]\<close> raises \<open>KeyError\<close> on a
  missing index.
\<close>

fun index_entity ::
  "(string \<times> (pyval \<Rightarrow> pyval)) list \<Rightarrow> pyval \<Rightarrow> pyval
     \<Rightarrow> (string \<times> (pyval \<times> pyval) list) list
     \<Rightarrow> error + (string \<times> (pyval \<times> pyval) list) list" where
  "index_entity [] entity eid idxs = Inr idxs"
| "index_entity ((name, ext) # rest) entity eid idxs =
     (case map_of idxs name of
        None \<Rightarrow> Inl (KeyError name)
      | Some idx \<Rightarrow>
          index_entity rest entity eid
            (AList.update name (AList.update (ext entity) eid idx) idxs))"

definition MemoryRepository_add :: "memory_repo \<Rightarrow> pyval \<Rightarrow> error + memory_repo" where
  "MemoryRepository_add r entity =
     (let eid = id_getter r entity;
          its = AList.update eid entity (items r)
      in case index_entity (extractors r) entity eid (indexes r) of
           Inl e \<Rightarrow> Inl e
         | Inr idxs \<Rightarrow> Inr (r\<lparr>items := its, indexes := idxs\<rparr>))"

definition MemoryRepository_get :: "memory_repo \<Rightarrow> pyval \<Rightarrow> pyval option" where
  "MemoryRepository_get r entity_id = map_of (items r) entity_id"

definition MemoryRepository_update :: "memory_repo \<Rightarrow> pyval \<Rightarrow> error + memory_repo" where
  "MemoryRepository_update r entity =
     (let eid = id_getter r entity;
          its = AList.update eid entity (items r)
      in case index_entity (extractors r) entity eid (indexes r) of
           Inl e \<Rightarrow> Inl e
         | Inr idxs \<Rightarrow> Inr (r\<lparr>items := its, indexes := idxs\<rparr>))"

text \<open>
  The loop of \<open>delete\<close>: an index entry is removed only when the value of the deleted
  entity still points at the deleted identity (\<open>idx.get(val) == entity_id\<close>).
\<close>

fun unindex_entity ::
  "(string \<times> (pyval \<Rightarrow> pyval)) list \<Rightarrow> pyval \<Rightarrow> pyval
     \<Rightarrow> (string \<times> (pyval \<times> pyval) list) list
     \<Rightarrow> error + (string \<times> (pyval \<times> pyval) list) list" where
  "unindex_entity [] ent entity_id idxs = Inr idxs"
| "unindex_entity ((name, ext) # rest) ent entity_id idxs =
     (case map_of idxs name of
        None \<Rightarrow> Inl (KeyError name)
      | Some idx \<Rightarrow>
          (let val = ext ent
           in if dict_get idx val = entity_id
              then unindex_entity rest ent entity_id
                     (AList.update name (AList.delete val idx) idxs)
              else unindex_entity rest ent entity_id idxs))"

definition MemoryRepository_delete :: "memory_repo \<Rightarrow> pyval \<Rightarrow> error + memory_repo" where
  "MemoryRepository_delete r entity_id =
     (case map_of (items r) entity_id of
        None \<Rightarrow> Inr r
      | Some ent \<Rightarrow>
          (let r' = r\<lparr>items := AList.delete entity_id (items r)\<rparr>
           in if \<not> truthy ent then Inr r'
              else case unindex_entity (extractors r) ent entity_id (indexes r) of
                     Inl e \<Rightarrow> Inl e
                   | Inr idxs \<Rightarrow> Inr (r'\<lparr>indexes := idxs\<rparr>)))"

definition MemoryRepository_get_by_index ::
  "memory_repo \<Rightarrow> string \<Rightarrow> pyval \<Rightarrow> pyval option" where
  "MemoryRepository_get_by_index r index value =
     (case map_of (indexes r) index of
        None \<Rightarrow> None
      | Some idx \<Rightarrow>
          if idx = [] then None
          else (let eid = dict_get idx value
                in if truthy eid then map_of (items r) eid else None))"

subsection \<open>Ordering comparisons and \<open>list.sort\<close>\<close>

text \<open>
  \<open>a < b\<close> of Python: defined between two integers, two strings (by code point) and
  two lists (at the first position where they differ, else by length); every other
  pair raises \<open>TypeError\<close>, here \<open>None\<close>. \<open>None < None\<close> raises too.
\<close>

fun str_lt :: "string \<Rightarrow> string \<Rightarrow> bool" where
  "str_lt [] [] = False"
| "str_lt [] (y # ys) = True"
| "str_lt (x # xs) [] = False"
| "str_lt (x # xs) (y # ys) =
     (if x = y then str_lt xs ys else (of_char x :: nat) < of_char y)"

fun py_lt :: "pyval \<Rightarrow> pyval \<Rightarrow> bool option"
  and py_lt_list :: "pyval list \<Rightarrow> pyval list \<Rightarrow> bool option" where
  "py_lt (PInt a) (PInt b) = Some (a < b)"
| "py_lt (PStr a) (PStr b) = Some (str_lt a b)"
| "py_lt (PList xs) (PList ys) = py_lt_list xs ys"
| "py_lt a b = None"
| "py_lt_list [] [] = Some False"
| "py_lt_list [] (y # ys) = Some True"
| "py_lt_list (x # xs) [] = Some False"
| "py_lt_list (x # xs) (y # ys) = (if x = y then py_lt_list xs ys else py_lt x y)"

text \<open>\<open>a <= b\<close>: on the values that can be compared it is the negation of \<open>b < a\<close>.\<close>

definition py_le :: "pyval \<Rightarrow> pyval \<Rightarrow> bool option" where
  "py_le a b = map_option Not (py_lt b a)"

definition comparable :: "pyval \<Rightarrow> pyval \<Rightarrow> bool" where
  "comparable a b = (py_lt a b \<noteq> None \<and> py_lt b a \<noteq> None)"

fun pairwise_comparable :: "pyval list \<Rightarrow> bool" where
  "pairwise_comparable [] = True"
| "pairwise_comparable (k # ks) = (list_all (comparable k) ks \<and> pairwise_comparable ks)"

text \<open>
  Stable insertion sort under a strict comparison: an element is placed before the
  first later element that is not smaller, so elements that compare equal keep their
  order.
\<close>

fun insort_by :: "('a \<Rightarrow> 'a \<Rightarrow> bool) \<Rightarrow> 'a \<Rightarrow> 'a list \<Rightarrow> 'a list" where
  "insort_by lt x [] = [x]"
| "insort_by lt x (y # ys) = (if lt y x then y # insort_by lt x ys else x # y # ys)"

fun stable_sort :: "('a \<Rightarrow> 'a \<Rightarrow> bool) \<Rightarrow> 'a list \<Rightarrow> 'a list" where
  "stable_sort lt [] = []"
| "stable_sort lt (x # xs) = insort_by lt x (stable_sort lt xs)"

text \<open>
  \<open>xs.sort(key=key, reverse=reverse)\<close>. The sort is stable, also with \<open>reverse=True\<close>,
  which reverses every comparison and not the result. A list of fewer than two
  elements is not compared at all. A sort that meets two keys that cannot be compared
  raises \<open>TypeError\<close>: for keys that are \<open>None\<close>, integers or strings every sort of a
  list with such a pair meets one. For keys that are lists, which of the pairs a sort
  compares depends on its merge strategy; the model raises as soon as one pair of keys
  cannot be compared.
\<close>

definition py_sort :: "(pyval \<Rightarrow> pyval) \<Rightarrow> bool \<Rightarrow> pyval list \<Rightarrow> error + pyval list" where
  "py_sort key reverse xs =
     (if length xs \<le> 1 then Inr xs
      else if \<not> pairwise_comparable (map key xs) then Inl TypeError
      else if reverse
        then Inr (stable_sort (\<lambda>a b. py_lt (key b) (key a) = Some True) xs)
        else Inr (stable_sort (\<lambda>a b. py_lt (key a) (key b) = Some True) xs))"

text \<open>The slices \<open>xs[start:]\<close>, \<open>xs[:stop]\<close> and \<open>xs[start:stop]\<close>; a negative bound
  counts from the end, and both bounds are clipped to the list.\<close>

definition slice_bound :: "'a list \<Rightarrow> int \<Rightarrow> nat" where
  "slice_bound xs i =
     (if i < 0 then nat (max (i + int (length xs)) 0) else min (nat i) (length xs))"

definition slice_from :: "'a list \<Rightarrow> int \<Rightarrow> 'a list" where
  "slice_from xs start = drop (slice_bound xs start) xs"

definition slice_to :: "'a list \<Rightarrow> int \<Rightarrow> 'a list" where
  "slice_to xs stop = take (slice_bound xs stop) xs"

definition slice :: "'a list \<Rightarrow> int \<Rightarrow> int \<Rightarrow> 'a list" where
  "slice xs start stop =
     take (slice_bound xs stop - slice_bound xs start) (drop (slice_bound xs start) xs)"

definition MemoryRepository_list ::
  "memory_repo \<Rightarrow> int \<Rightarrow> int \<Rightarrow> string option \<Rightarrow> bool \<Rightarrow> error + pyval list" where
  "MemoryRepository_list r offset limit sort_by sort_desc =
     (let vals = map snd (items r)
      in case (case sort_by of
                 None \<Rightarrow> Inr vals
               | Some f \<Rightarrow> py_sort (\<lambda>e. get_field_value e f) sort_desc vals) of
           Inl e \<Rightarrow> Inl e
         | Inr vs \<Rightarrow> Inr (slice vs offset (offset + limit)))"

subsection \<open>The criteria filter (\<open>filter_ops\<close>)\<close>

fun is_multi_value :: "pyval \<Rightarrow> bool" where
  "is_multi_value (PList xs) = True"
| "is_multi_value v = False"

fun is_range_dict :: "pyval \<Rightarrow> bool" where
  "is_range_dict (PDict kvs) = True"
| "is_range_dict v = False"

definition SIMPLE_OPS :: "string list" where
  "SIMPLE_OPS = [''gte'', ''gt'', ''lte'', ''lt'', ''eq'', ''ne'']"

text \<open>The checking loop of \<open>iter_range_ops\<close>: the first operator in the mapping's
  order that is malformed raises.\<close>

fun check_range_ops :: "(string \<times> pyval) list \<Rightarrow> error option" where
  "check_range_ops [] = None"
| "check_range_ops ((op, v) # rest) =
     (if op = ''between'' then
        (case v of
           PList vs \<Rightarrow> if length vs \<noteq> 2 then Some BetweenArity else check_range_ops rest
         | _ \<Rightarrow> Some BetweenArity)
      else if op = ''in'' then
        (if \<not> is_multi_value v then Some InNotList else check_range_ops rest)
      else if op \<in> set SIMPLE_OPS then check_range_ops rest
      else Some (UnsupportedOperator op))"

definition iter_range_ops :: "(string \<times> pyval) list \<Rightarrow> error + (string \<times> pyval) list" where
  "iter_range_ops value =
     (if value = [] then Inr []
      else case check_range_ops value of
             Some e \<Rightarrow> Inl e
           | None \<Rightarrow> Inr value)"

text \<open>
  The guard at the head of all three \<open>list_by_fields\<close>: a criterion that is an empty
  list, or a mapping whose \<open>in\<close> is the empty list.
\<close>

fun vacuous :: "pyval \<Rightarrow> bool" where
  "vacuous (PList xs) = (xs = [])"
| "vacuous (PDict kvs) = (dict_get kvs ''in'' = PList [])"
| "vacuous v = False"

text \<open>The operator loop of \<open>_match_value\<close>, after \<open>iter_range_ops\<close> has accepted the
  mapping. A comparison that raises ends the loop with \<open>TypeError\<close>.\<close>

fun match_ops :: "pyval \<Rightarrow> (string \<times> pyval) list \<Rightarrow> error + bool" where
  "match_ops val [] = Inr True"
| "match_ops val ((op, v) # rest) =
     (if op = ''between'' then
        (case v of
           PList [lo, hi] \<Rightarrow>
             if val = PNone then Inr False
             else (case py_lt val lo of
                     None \<Rightarrow> Inl TypeError
                   | Some True \<Rightarrow> Inr False
                   | Some False \<Rightarrow>
                       (case py_lt hi val of
                          None \<Rightarrow> Inl TypeError
                        | Some True \<Rightarrow> Inr False
                        | Some False \<Rightarrow> match_ops val rest))
         | _ \<Rightarrow> Inl TypeError)
      else if op = ''gte'' then
        (if val = PNone then Inr False
         else case py_lt val v of
                None \<Rightarrow> Inl TypeError
              | Some True \<Rightarrow> Inr False
              | Some False \<Rightarrow> match_ops val rest)
      else if op = ''gt'' then
        (if val = PNone then Inr False
         else case py_le val v of
                None \<Rightarrow> Inl TypeError
              | Some True \<Rightarrow> Inr False
              | Some False \<Rightarrow> match_ops val rest)
      else if op = ''lte'' then
        (if val = PNone then Inr False
         else case py_lt v val of
                None \<Rightarrow> Inl TypeError
              | Some True \<Rightarrow> Inr False
              | Some False \<Rightarrow> match_ops val rest)
      else if op = ''lt'' then
        (if val = PNone then Inr False
         else case py_le v val of
                None \<Rightarrow> Inl TypeError
              | Some True \<Rightarrow> Inr False
              | Some False \<Rightarrow> match_ops val rest)
      else if op = ''in'' then
        (case v of
           PList vs \<Rightarrow> if val \<notin> set vs then Inr False else match_ops val rest
         | _ \<Rightarrow> Inl TypeError)
      else if op = ''eq'' then
        (if val \<noteq> v then Inr False else match_ops val rest)
      else if op = ''ne'' then
        (if val = v then Inr False else match_ops val rest)
      else match_ops val rest)"

fun match_value :: "pyval \<Rightarrow> pyval \<Rightarrow> error + bool" where
  "match_value val PNone = Inr (val = PNone)"
| "match_value val (PList xs) = Inr (val \<in> set xs)"
| "match_value val (PDict kvs) =
     (case iter_range_ops kvs of
        Inl e \<Rightarrow> Inl e
      | Inr ops \<Rightarrow> if ops = [] then Inr False else match_ops val ops)"
| "match_value val cond = Inr (val = cond)"

text \<open>The inner loop of \<open>list_by_fields\<close>: the criteria in order, left at the first
  one that does not match.\<close>

fun entity_matches :: "pyval \<Rightarrow> (string \<times> pyval) list \<Rightarrow> error + bool" where
  "entity_matches ent [] = Inr True"
| "entity_matches ent ((k, v) # rest) =
     (case match_value (get_field_value ent k) v of
        Inl e \<Rightarrow> Inl e
      | Inr ok \<Rightarrow> if \<not> ok then Inr False else entity_matches ent rest)"

fun collect_matched :: "pyval list \<Rightarrow> (string \<times> pyval) list \<Rightarrow> error + pyval list" where
  "collect_matched [] criteria = Inr []"
| "collect_matched (ent # ents) criteria =
     (case entity_matches ent criteria of
        Inl e \<Rightarrow> Inl e
      | Inr ok \<Rightarrow>
          (case collect_matched ents criteria of
             Inl e \<Rightarrow> Inl e
           | Inr matched \<Rightarrow> Inr (if ok then ent # matched else matched)))"

definition MemoryRepository_list_by_fields ::
  "memory_repo \<Rightarrow> (string \<times> pyval) list \<Rightarrow> int \<Rightarrow> int option \<Rightarrow> string option \<Rightarrow> bool
     \<Rightarrow> error + pyval list" where
  "MemoryRepository_list_by_fields r criteria offset limit sort_by sort_desc =
     (if criteria = [] then Inr []
      else if list_ex vacuous (map snd criteria) then Inr []
      else case collect_matched (map snd (items r)) criteria of
             Inl e \<Rightarrow> Inl e
           | Inr matched \<Rightarrow>
               (case (case sort_by of
                        None \<Rightarrow> Inr matched
                      | Some f \<Rightarrow> py_sort (\<lambda>e. get_field_value e f) sort_desc matched) of
                  Inl e \<Rightarrow> Inl e
                | Inr sorted_vals \<Rightarrow>
                    (let skipped = (if offset \<noteq> 0 then slice_from sorted_vals offset
                                    else sorted_vals)
                     in Inr (case limit of
                               None \<Rightarrow> skipped
                             | Some l \<Rightarrow> slice_to skipped l))))"

section \<open>The document-store repository\<close>

text \<open>
  The \<open>EntityMapper\<close> protocol, as far as the read operations use it. The two
  dataclass mappers of the repository implement \<open>has_attr\<close> and \<open>attr_to_storage\<close>
  alike: \<open>id\<close> is always an attribute and is stored under the identity key.
\<close>

record mongo_mapper =
  mg_unique_fields :: "(string \<times> string) list"
  mg_has_attr :: "string \<Rightarrow> bool"
  mg_attr_to_storage :: "string \<Rightarrow> string"
  mg_from_document :: "(string \<times> pyval) list \<Rightarrow> error + pyval"

definition DataclassMapper_has_attr :: "string list \<Rightarrow> string \<Rightarrow> bool" where
  "DataclassMapper_has_attr field_names name = (name = ''id'' \<or> name \<in> set field_names)"

definition DataclassMapper_attr_to_storage :: "string \<Rightarrow> string \<Rightarrow> string" where
  "DataclassMapper_attr_to_storage id_field name = (if name = ''id'' then id_field else name)"

text \<open>
  The collection handle of the driver. Building a cursor (\<open>find\<close>, \<open>sort\<close>, \<open>skip\<close>,
  \<open>limit\<close>) sends nothing; \<open>to_list\<close> runs it and \<open>create_index\<close> changes the
  collection. Both are recorded in \<open>col_calls\<close>, oldest first. What the database
  answers to a cursor is the driver's business: the parameter \<open>col_fetch\<close>.
\<close>

record cursor =
  cur_query :: "(string \<times> pyval) list"
  cur_sort :: "(string \<times> int) option"
  cur_skip :: "int option"
  cur_limit :: "int option"

datatype mongo_call = CreateIndex string string | ToList cursor int

record collection =
  col_fetch :: "cursor \<Rightarrow> int \<Rightarrow> (string \<times> pyval) list list"
  col_calls :: "mongo_call list"

fun map_result :: "('a \<Rightarrow> error + 'b) \<Rightarrow> 'a list \<Rightarrow> error + 'b list" where
  "map_result f [] = Inr []"
| "map_result f (x # xs) =
     (case f x of
        Inl e \<Rightarrow> Inl e
      | Inr y \<Rightarrow> (case map_result f xs of Inl e \<Rightarrow> Inl e | Inr ys \<Rightarrow> Inr (y # ys)))"

text \<open>\<open>await cursor.to_list(length)\<close> followed by \<open>from_document\<close> on every document.\<close>

definition to_list ::
  "collection \<Rightarrow> mongo_mapper \<Rightarrow> cursor \<Rightarrow> int \<Rightarrow> (error + pyval list) \<times> collection" where
  "to_list col mapper cur n =
     (map_result (mg_from_document mapper) (col_fetch col cur n),
      col\<lparr>col_calls := col_calls col @ [ToList cur n]\<rparr>)"

text \<open>The loop of \<open>_range_to_mongo\<close> over the operators \<open>iter_range_ops\<close> accepted.\<close>

fun range_ops_to_mongo ::
  "(string \<times> pyval) list \<Rightarrow> (string \<times> pyval) list \<Rightarrow> error + (string \<times> pyval) list" where
  "range_ops_to_mongo [] query = Inr query"
| "range_ops_to_mongo ((op, v) # rest) query =
     (if op = ''between'' then
        (case v of
           PList (lo # hi # others) \<Rightarrow>
             range_ops_to_mongo rest
               (AList.update ''$lte'' hi (AList.update ''$gte'' lo query))
         | _ \<Rightarrow> Inl TypeError)
      else if op = ''gte'' then range_ops_to_mongo rest (AList.update ''$gte'' v query)
      else if op = ''gt'' then range_ops_to_mongo rest (AList.update ''$gt'' v query)
      else if op = ''lte'' then range_ops_to_mongo rest (AList.update ''$lte'' v query)
      else if op = ''lt'' then range_ops_to_mongo rest (AList.update ''$lt'' v query)
      else if op = ''in'' then range_ops_to_mongo rest (AList.update ''$in'' v query)
      else if op = ''eq'' then range_ops_to_mongo rest (AList.update ''$eq'' v query)
      else if op = ''ne'' then range_ops_to_mongo rest (AList.update ''$ne'' v query)
      else range_ops_to_mongo rest query)"

definition range_to_mongo :: "(string \<times> pyval) list \<Rightarrow> error + (string \<times> pyval) list" where
  "range_to_mongo value =
     (case iter_range_ops value of
        Inl e \<Rightarrow> Inl e
      | Inr ops \<Rightarrow> range_ops_to_mongo ops [])"

text \<open>
  A translation loop ends in one of three ways: it raises, it returns the empty result
  at once (an empty range mapping), or it has built the backend's filter.
\<close>

datatype 'a translated = Failed error | Empty | Built 'a

fun build_query ::
  "mongo_mapper \<Rightarrow> (string \<times> pyval) list \<Rightarrow> (string \<times> pyval) list
     \<Rightarrow> (string \<times> pyval) list translated" where
  "build_query mapper [] query = Built query"
| "build_query mapper ((k, v) # rest) query =
     (let f = mg_attr_to_storage mapper k
      in case v of
           PNone \<Rightarrow> build_query mapper rest (AList.update f (PDict [(''$eq'', PNone)]) query)
         | PList vs \<Rightarrow> build_query mapper rest (AList.update f (PDict [(''$in'', PList vs)]) query)
         | PDict kvs \<Rightarrow>
             (case range_to_mongo kvs of
                Inl e \<Rightarrow> Failed e
              | Inr mongo_range \<Rightarrow>
                  if mongo_range = [] then Empty
                  else build_query mapper rest (AList.update f (PDict mongo_range) query))
         | _ \<Rightarrow> build_query mapper rest (AList.update f v query))"

definition find_by_fields ::
  "collection \<Rightarrow> mongo_mapper \<Rightarrow> (string \<times> pyval) list \<Rightarrow> int \<Rightarrow> int option
     \<Rightarrow> string option \<Rightarrow> bool \<Rightarrow> (error + pyval list) \<times> collection" where
  "find_by_fields col mapper criteria offset limit sort_by sort_desc =
     (if criteria = [] then (Inr [], col)
      else if list_ex vacuous (map snd criteria) then (Inr [], col)
      else case build_query mapper criteria [] of
             Failed e \<Rightarrow> (Inl e, col)
           | Empty \<Rightarrow> (Inr [], col)
           | Built query \<Rightarrow>
               (case sort_by of
                  Some f \<Rightarrow>
                    if \<not> mg_has_attr mapper f then (Inl (InvalidSort f), col)
                    else to_list col mapper
                           \<lparr> cur_query = query,
                             cur_sort = Some (mg_attr_to_storage mapper f,
                                              if sort_desc then - 1 else 1),
                             cur_skip = (if offset \<noteq> 0 then Some offset else None),
                             cur_limit = limit \<rparr>
                           (case limit of None \<Rightarrow> 0 | Some l \<Rightarrow> l)
                | None \<Rightarrow>
                    to_list col mapper
                      \<lparr> cur_query = query,
                        cur_sort = None,
                        cur_skip = (if offset \<noteq> 0 then Some offset else None),
                        cur_limit = limit \<rparr>
                      (case limit of None \<Rightarrow> 0 | Some l \<Rightarrow> l)))"

record mongo_repo =
  mr_col :: collection
  mr_mapper :: mongo_mapper
  mr_inited :: bool

definition MongoRepository_init_indexes :: "mongo_repo \<Rightarrow> mongo_repo" where
  "MongoRepository_init_indexes r =
     r\<lparr>mr_col := (mr_col r)\<lparr>col_calls := col_calls (mr_col r)
          @ map (\<lambda>(name, field). CreateIndex field (''uniq_'' @ name))
              (mg_unique_fields (mr_mapper r))\<rparr>\<rparr>"

definition MongoRepository_ensure_indexes :: "mongo_repo \<Rightarrow> mongo_repo" where
  "MongoRepository_ensure_indexes r =
     (if mr_inited r then r
      else (MongoRepository_init_indexes r)\<lparr>mr_inited := True\<rparr>)"

definition MongoRepository_list ::
  "mongo_repo \<Rightarrow> int \<Rightarrow> int \<Rightarrow> string option \<Rightarrow> bool \<Rightarrow> (error + pyval list) \<times> mongo_repo" where
  "MongoRepository_list r0 offset limit sort_by sort_desc =
     (let r = MongoRepository_ensure_indexes r0
      in case sort_by of
           Some f \<Rightarrow>
             if \<not> mg_has_attr (mr_mapper r) f then (Inl (InvalidSort f), r)
             else (case to_list (mr_col r) (mr_mapper r)
                          \<lparr> cur_query = [],
                            cur_sort = Some (mg_attr_to_storage (mr_mapper r) f,
                                             if sort_desc then - 1 else 1),
                            cur_skip = Some offset,
                            cur_limit = Some limit \<rparr> limit of
                     (res, col') \<Rightarrow> (res, r\<lparr>mr_col := col'\<rparr>))
         | None \<Rightarrow>
             (case to_list (mr_col r) (mr_mapper r)
                     \<lparr> cur_query = [], cur_sort = None,
                       cur_skip = Some offset, cur_limit = Some limit \<rparr> limit of
                (res, col') \<Rightarrow> (res, r\<lparr>mr_col := col'\<rparr>)))"

definition MongoRepository_list_by_fields ::
  "mongo_repo \<Rightarrow> (string \<times> pyval) list \<Rightarrow> int \<Rightarrow> int option \<Rightarrow> string option \<Rightarrow> bool
     \<Rightarrow> (error + pyval list) \<times> mongo_repo" where
  "MongoRepository_list_by_fields r0 criteria offset limit sort_by sort_desc =
     (let r = MongoRepository_ensure_indexes r0
      in case find_by_fields (mr_col r) (mr_mapper r) criteria offset limit sort_by sort_desc of
           (res, col') \<Rightarrow> (res, r\<lparr>mr_col := col'\<rparr>))"

section \<open>The relational repository\<close>

text \<open>
  The \<open>SqlAlchemyEntityMapper\<close> protocol as far as the read operations use it;
  \<open>sq_columns\<close> are the column names of the mapper's table (the keys of \<open>table.c\<close>).
\<close>

record sql_mapper =
  sq_columns :: "string list"
  sq_id_column :: string
  sq_unique_columns :: "(string \<times> string) list"
  sq_has_attr :: "string \<Rightarrow> bool"
  sq_attr_to_storage :: "string \<Rightarrow> string"
  sq_from_row :: "(string \<times> pyval) list \<Rightarrow> error + pyval"

datatype sql_clause =
    IsNone string
  | InList string pyval
  | Between string pyval pyval
  | Ge string pyval
  | Gt string pyval
  | Le string pyval
  | Lt string pyval
  | Eq string pyval
  | Ne string pyval

record sql_stmt =
  st_where :: "sql_clause list option"
  st_order_by :: "string \<times> bool"
  st_offset :: int
  st_limit :: "int option"

text \<open>
  The engine. A statement built with \<open>select\<close>, \<open>where\<close>, \<open>order_by\<close>, \<open>offset\<close> and
  \<open>limit\<close> sends nothing; \<open>conn.execute\<close> runs it, and \<open>conn.run_sync\<close> runs the
  table and index creation of \<open>init_indexes\<close>. Both are recorded in \<open>eng_calls\<close>. The
  rows the database answers are the parameter \<open>eng_rows\<close>.
\<close>

datatype sql_call =
    RunSync "(string \<times> string) list" "(string \<times> string \<times> string) list"
  | Execute sql_stmt

record engine =
  eng_rows :: "sql_stmt \<Rightarrow> (string \<times> pyval) list list"
  eng_calls :: "sql_call list"

definition execute ::
  "engine \<Rightarrow> sql_mapper \<Rightarrow> sql_stmt \<Rightarrow> (error + pyval list) \<times> engine" where
  "execute eng mapper stmt =
     (map_result (sq_from_row mapper) (eng_rows eng stmt),
      eng\<lparr>eng_calls := eng_calls eng @ [Execute stmt]\<rparr>)"

text \<open>The clauses one range mapping adds for a column.\<close>

fun range_clauses ::
  "string \<Rightarrow> (string \<times> pyval) list \<Rightarrow> sql_clause list \<Rightarrow> error + sql_clause list" where
  "range_clauses col [] clauses = Inr clauses"
| "range_clauses col ((op, v) # rest) clauses =
     (if op = ''between'' then
        (case v of
           PList (lo # hi # others) \<Rightarrow> range_clauses col rest (clauses @ [Between col lo hi])
         | _ \<Rightarrow> Inl TypeError)
      else if op = ''gte'' then range_clauses col rest (clauses @ [Ge col v])
      else if op = ''gt'' then range_clauses col rest (clauses @ [Gt col v])
      else if op = ''lte'' then range_clauses col rest (clauses @ [Le col v])
      else if op = ''lt'' then range_clauses col rest (clauses @ [Lt col v])
      else if op = ''in'' then range_clauses col rest (clauses @ [InList col v])
      else if op = ''eq'' then range_clauses col rest (clauses @ [Eq col v])
      else if op = ''ne'' then range_clauses col rest (clauses @ [Ne col v])
      else range_clauses col rest clauses)"

fun build_clauses ::
  "sql_mapper \<Rightarrow> (string \<times> pyval) list \<Rightarrow> sql_clause list \<Rightarrow> sql_clause list translated" where
  "build_clauses mapper [] clauses = Built clauses"
| "build_clauses mapper ((field, v) # rest) clauses =
     (if \<not> sq_has_attr mapper field then Failed (InvalidField field)
      else
        (let col = sq_attr_to_storage mapper field
         in if col \<notin> set (sq_columns mapper) then Failed (MissingColumn col)
            else case v of
                   PNone \<Rightarrow> build_clauses mapper rest (clauses @ [IsNone col])
                 | PList vs \<Rightarrow> build_clauses mapper rest (clauses @ [InList col (PList vs)])
                 | PDict kvs \<Rightarrow>
                     (case iter_range_ops kvs of
                        Inl e \<Rightarrow> Failed e
                      | Inr ops \<Rightarrow>
                          if ops = [] then Empty
                          else (case range_clauses col ops clauses of
                                  Inl e \<Rightarrow> Failed e
                                | Inr cs \<Rightarrow> build_clauses mapper rest cs))
                 | _ \<Rightarrow> build_clauses mapper rest (clauses @ [Eq col v])))"

text \<open>The tail shared by \<open>_select_by_fields\<close> and \<open>list\<close>: the sort column, then the
  statement is run. \<open>table.c[name]\<close> raises \<open>KeyError\<close> for a column the table lacks.\<close>

definition order_and_run ::
  "engine \<Rightarrow> sql_mapper \<Rightarrow> sql_clause list option \<Rightarrow> int \<Rightarrow> int option
     \<Rightarrow> string option \<Rightarrow> bool \<Rightarrow> (error + pyval list) \<times> engine" where
  "order_and_run eng mapper wh offset limit sort_by sort_desc =
     (case (case sort_by of
              Some f \<Rightarrow> if \<not> sq_has_attr mapper f then Inl (InvalidSort f)
                        else Inr (sq_attr_to_storage mapper f)
            | None \<Rightarrow> Inr (sq_id_column mapper)) of
        Inl e \<Rightarrow> (Inl e, eng)
      | Inr sort_col_name \<Rightarrow>
          if sort_col_name \<notin> set (sq_columns mapper) then (Inl (KeyError sort_col_name), eng)
          else execute eng mapper
                 \<lparr> st_where = wh, st_order_by = (sort_col_name, sort_desc),
                   st_offset = offset, st_limit = limit \<rparr>)"

definition select_by_fields ::
  "engine \<Rightarrow> sql_mapper \<Rightarrow> (string \<times> pyval) list \<Rightarrow> int \<Rightarrow> int option
     \<Rightarrow> string option \<Rightarrow> bool \<Rightarrow> (error + pyval list) \<times> engine" where
  "select_by_fields eng mapper criteria offset limit sort_by sort_desc =
     (if criteria = [] then (Inr [], eng)
      else if list_ex vacuous (map snd criteria) then (Inr [], eng)
      else case build_clauses mapper criteria [] of
             Failed e \<Rightarrow> (Inl e, eng)
           | Empty \<Rightarrow> (Inr [], eng)
           | Built clauses \<Rightarrow>
               order_and_run eng mapper (Some clauses) offset limit sort_by sort_desc)"

text \<open>
  The repository. \<open>init_indexes\<close> reads the foreign keys of the entity from the
  registry (\<open>build_fk_map_from_registry\<close>) and creates table, unique indexes and
  foreign keys in one \<open>run_sync\<close>. The registry is set up by the host application
  before a repository is built; the map read from it is the field \<open>sr_fk_map\<close> here,
  and the \<open>KeyError\<close> of a registry that lacks the entity or a target is left out, as
  are the failures of the driver.
\<close>

record sql_repo =
  sr_engine :: engine
  sr_mapper :: sql_mapper
  sr_fk_map :: "(string \<times> string \<times> string) list"
  sr_inited :: bool

definition SqlAlchemyRepository_init_indexes :: "sql_repo \<Rightarrow> sql_repo" where
  "SqlAlchemyRepository_init_indexes r =
     r\<lparr>sr_engine := (sr_engine r)\<lparr>eng_calls := eng_calls (sr_engine r)
          @ [RunSync (sq_unique_columns (sr_mapper r)) (sr_fk_map r)]\<rparr>,
       sr_inited := True\<rparr>"

definition SqlAlchemyRepository_ensure_indexes :: "sql_repo \<Rightarrow> sql_repo" where
  "SqlAlchemyRepository_ensure_indexes r =
     (if \<not> sr_inited r then SqlAlchemyRepository_init_indexes r else r)"

definition SqlAlchemyRepository_list ::
  "sql_repo \<Rightarrow> int \<Rightarrow> int \<Rightarrow> string option \<Rightarrow> bool \<Rightarrow> (error + pyval list) \<times> sql_repo" where
  "SqlAlchemyRepository_list r0 offset limit sort_by sort_desc =
     (let r = SqlAlchemyRepository_ensure_indexes r0
      in case order_and_run (sr_engine r) (sr_mapper r) None offset (Some limit)
                sort_by sort_desc of
           (res, eng') \<Rightarrow> (res, r\<lparr>sr_engine := eng'\<rparr>))"

definition SqlAlchemyRepository_list_by_fields ::
  "sql_repo \<Rightarrow> (string \<times> pyval) list \<Rightarrow> int \<Rightarrow> int option \<Rightarrow> string option \<Rightarrow> bool
     \<Rightarrow> (error + pyval list) \<times> sql_repo" where
  "SqlAlchemyRepository_list_by_fields r0 criteria offset limit sort_by sort_desc =
     (let r = SqlAlchemyRepository_ensure_indexes r0
      in case select_by_fields (sr_engine r) (sr_mapper r) criteria offset limit
                sort_by sort_desc of
           (res, eng') \<Rightarrow> (res, r\<lparr>sr_engine := eng'\<rparr>))"

section \<open>Relation population\<close>





























section \<open>Repositories the constructor builds\<close>

text \<open>
  The constructor makes one index per extractor, and no operation adds or removes an
  index: the indexes and the extractors have the same names, each once.
\<close>

definition wf_repo :: "memory_repo \<Rightarrow> bool" where
  "wf_repo r = (map fst (indexes r) = map fst (extractors r) \<and> distinct (map fst (extractors r)))"

section \<open>Sort keys\<close>

text \<open>The field values a sort is stated for: all integers, or all strings.\<close>

fun is_int :: "pyval \<Rightarrow> bool" where
  "is_int (PInt i) = True"
| "is_int v = False"

fun is_str :: "pyval \<Rightarrow> bool" where
  "is_str (PStr s) = True"
| "is_str v = False"

fun int_of :: "pyval \<Rightarrow> int" where
  "int_of (PInt i) = i"
| "int_of v = 0"

fun str_of :: "pyval \<Rightarrow> string" where
  "str_of (PStr s) = s"
| "str_of v = []"

section \<open>Example data\<close>

text \<open>
  A customer entity with an identity, a unique email and a total, the mappers of the
  two database backends for it, repositories that have not initialised their indexes
  yet, and an in-memory repository as the factory builds it: the identity read from
  \<open>id\<close>, one unique index on \<open>email\<close>.
\<close>

definition attrgetter :: "string \<Rightarrow> pyval \<Rightarrow> pyval" where
  "attrgetter name e = get_field_value e name"

text \<open>Some of the attributes an instance of a dataclass has besides its fields: its
  class, the docstring the decorator writes, the module, \<open>__hash__\<close> (which the
  decorator sets to \<open>None\<close>) and methods.\<close>

definition dataclass_attrs :: "string \<Rightarrow> string \<Rightarrow> (string \<times> pyval) list" where
  "dataclass_attrs cls doc =
     [(''__class__'', POther cls),
      (''__doc__'', PStr doc),
      (''__module__'', PStr ''__main__''),
      (''__hash__'', PNone),
      (''__eq__'', POther ''__eq__''),
      (''__init__'', POther ''__init__''),
      (''__repr__'', POther ''__repr__'')]"

definition customer_fields :: "string list" where
  "customer_fields = [''id'', ''email'', ''total'']"

definition Customer :: "int \<Rightarrow> string \<Rightarrow> int \<Rightarrow> pyval" where
  "Customer i email amount =
     PObj [(''id'', PInt i), (''email'', PStr email), (''total'', PInt amount)]
       (dataclass_attrs ''Customer'' ''Customer(id: int, email: str, total: int)'')"

definition customer_from_storage :: "(string \<times> pyval) list \<Rightarrow> error + pyval" where
  "customer_from_storage row =
     Inr (PObj row (dataclass_attrs ''Customer'' ''Customer(id: int, email: str, total: int)''))"

definition customer_sql_mapper :: sql_mapper where
  "customer_sql_mapper =
     \<lparr> sq_columns = customer_fields,
       sq_id_column = ''id'',
       sq_unique_columns = [(''email'', ''email'')],
       sq_has_attr = DataclassMapper_has_attr customer_fields,
       sq_attr_to_storage = DataclassMapper_attr_to_storage ''id'',
       sq_from_row = customer_from_storage \<rparr>"

definition customer_mongo_mapper :: mongo_mapper where
  "customer_mongo_mapper =
     \<lparr> mg_unique_fields = [(''email'', ''email'')],
       mg_has_attr = DataclassMapper_has_attr customer_fields,
       mg_attr_to_storage = DataclassMapper_attr_to_storage ''_id'',
       mg_from_document = customer_from_storage \<rparr>"

definition no_rows :: "sql_stmt \<Rightarrow> (string \<times> pyval) list list" where
  "no_rows stmt = []"

definition no_docs :: "cursor \<Rightarrow> int \<Rightarrow> (string \<times> pyval) list list" where
  "no_docs cur n = []"

definition fresh_sql_repo :: sql_repo where
  "fresh_sql_repo =
     \<lparr> sr_engine = \<lparr> eng_rows = no_rows, eng_calls = [] \<rparr>,
       sr_mapper = customer_sql_mapper,
       sr_fk_map = [],
       sr_inited = False \<rparr>"

definition fresh_mongo_repo :: mongo_repo where
  "fresh_mongo_repo =
     \<lparr> mr_col = \<lparr> col_fetch = no_docs, col_calls = [] \<rparr>,
       mr_mapper = customer_mongo_mapper,
       mr_inited = False \<rparr>"

definition customers :: memory_repo where
  "customers = MemoryRepository_init (attrgetter ''id'') [(''email'', attrgetter ''email'')]"

definition one_customer :: memory_repo where
  "one_customer =
     \<lparr> id_getter = attrgetter ''id'',
       items = [(PInt 1, Customer 1 ''a@x'' 5)],
       indexes = [(''email'', [(PStr ''a@x'', PInt 1)])],
       extractors = [(''email'', attrgetter ''email'')] \<rparr>"

text \<open>A sequence of write operations on the in-memory repository.\<close>

datatype repo_op = Add pyval | Update pyval | Delete pyval

fun apply_op :: "memory_repo \<Rightarrow> repo_op \<Rightarrow> error + memory_repo" where
  "apply_op r (Add e) = MemoryRepository_add r e"
| "apply_op r (Update e) = MemoryRepository_update r e"
| "apply_op r (Delete i) = MemoryRepository_delete r i"

fun run_ops :: "memory_repo \<Rightarrow> repo_op list \<Rightarrow> error + memory_repo" where
  "run_ops r [] = Inr r"
| "run_ops r (op # ops) =
     (case apply_op r op of Inl e \<Rightarrow> Inl e | Inr r' \<Rightarrow> run_ops r' ops)"

definition two_customers :: memory_repo where
  "two_customers =
     \<lparr> id_getter = attrgetter ''id'',
       items = [(PInt 1, Customer 1 ''a@x'' 5), (PInt 2, Customer 2 ''b@x'' 3)],
       indexes = [(''email'', [(PStr ''a@x'', PInt 1), (PStr ''b@x'', PInt 2)])],
       extractors = [(''email'', attrgetter ''email'')] \<rparr>"

definition tied_customers :: memory_repo where
  "tied_customers =
     \<lparr> id_getter = attrgetter ''id'',
       items = [(PInt 1, Customer 1 ''a@x'' 5), (PInt 2, Customer 2 ''b@x'' 5)],
       indexes = [(''email'', [(PStr ''a@x'', PInt 1), (PStr ''b@x'', PInt 2)])],
       extractors = [(''email'', attrgetter ''email'')] \<rparr>"









section \<open>Evaluation\<close>

lemmas example_defs = attrgetter_def customer_fields_def Customer_def customer_from_storage_def
  dataclass_attrs_def
  customer_sql_mapper_def customer_mongo_mapper_def no_rows_def no_docs_def fresh_sql_repo_def
  fresh_mongo_repo_def customers_def one_customer_def DataclassMapper_has_attr_def
  DataclassMapper_attr_to_storage_def MemoryRepository_init_def dict_get_def Let_def
  slice_def slice_from_def slice_to_def slice_bound_def

lemmas memory_defs = MemoryRepository_add_def MemoryRepository_update_def
  MemoryRepository_delete_def MemoryRepository_get_def MemoryRepository_get_by_index_def


section \<open>The translators\<close>

lemma check_range_ops_ValueError:
  "check_range_ops ops = Some e \<Longrightarrow> is_ValueError e"
  by (induction ops rule: check_range_ops.induct)
     (auto split: if_splits pyval.splits)

lemma iter_range_ops_ValueError:
  "iter_range_ops kvs = Inl e \<Longrightarrow> is_ValueError e"
  by (auto simp: iter_range_ops_def split: if_splits option.splits
      dest: check_range_ops_ValueError)

lemma iter_range_ops_Inr:
  "iter_range_ops kvs = Inr ops \<Longrightarrow> ops = kvs \<and> check_range_ops kvs = None"
  by (auto simp: iter_range_ops_def split: if_splits option.splits)



lemma range_clauses_checked:
  "check_range_ops ops = None \<Longrightarrow> \<exists>cs'. range_clauses col ops cs = Inr cs'"
proof (induction ops arbitrary: cs)
  case Nil
  show ?case by simp
next
  case (Cons a ops)
  obtain op v where a: "a = (op, v)" by (cases a)
  from Cons.prems a have rest: "check_range_ops ops = None"
    by (auto split: if_splits pyval.splits)
  show ?case
  proof (cases "op = ''between''")
    case True
    with Cons.prems a obtain lo hi where "v = PList [lo, hi]"
      by (auto split: if_splits pyval.splits simp: length_Suc_conv numeral_2_eq_2)
    with True a Cons.IH [OF rest] show ?thesis by simp
  next
    case False
    with a Cons.IH [OF rest] show ?thesis by simp
  qed
qed


lemma build_clauses_Failed:
  "build_clauses sm criteria cs = Failed e \<Longrightarrow> is_ValueError e"
proof (induction criteria arbitrary: cs)
  case Nil
  then show ?case by simp
next
  case (Cons a criteria)
  obtain k v where a: "a = (k, v)" by (cases a)
  show ?case
  proof (cases v)
    case (PDict kvs)
    show ?thesis
    proof (cases "iter_range_ops kvs")
      case (Inl e')
      with Cons.prems a PDict show ?thesis
        by (auto simp: Let_def split: if_splits dest: iter_range_ops_ValueError)
    next
      case (Inr ops)
      then have "check_range_ops ops = None" by (auto dest: iter_range_ops_Inr)
      then obtain cs' where "range_clauses (sq_attr_to_storage sm k) ops cs = Inr cs'"
        using range_clauses_checked by blast
      with Cons a PDict Inr show ?thesis
        by (auto simp: Let_def split: if_splits)
    qed
  qed (use Cons a in \<open>auto simp: Let_def split: if_splits\<close>)
qed




lemma build_clauses_append:
  "build_clauses sm (pre @ rest) cs =
     (case build_clauses sm pre cs of
        Built cs' \<Rightarrow> build_clauses sm rest cs'
      | Failed e \<Rightarrow> Failed e
      | Empty \<Rightarrow> Empty)"
proof (induction pre arbitrary: cs)
  case Nil
  show ?case by simp
next
  case (Cons a pre)
  obtain k v where a: "a = (k, v)" by (cases a)
  show ?case using Cons.IH a
    by (cases v) (auto simp: Let_def split: sum.splits)
qed

lemma build_clauses_unknown_field:
  "(k, v) \<in> set criteria \<Longrightarrow> \<not> sq_has_attr sm k \<Longrightarrow> build_clauses sm criteria cs \<noteq> Built x"
proof (induction criteria arbitrary: cs)
  case Nil
  then show ?case by simp
next
  case (Cons a criteria)
  obtain k' v' where a: "a = (k', v')" by (cases a)
  show ?case
  proof (cases "sq_has_attr sm k'")
    case False
    with a show ?thesis by simp
  next
    case True
    with Cons.prems a have "(k, v) \<in> set criteria" by auto
    with Cons.IH Cons.prems(2) have "\<And>cs. build_clauses sm criteria cs \<noteq> Built x" by blast
    with a show ?thesis
      by (cases v') (auto simp: Let_def split: sum.splits)
  qed
qed

lemma range_to_mongo_malformed:
  assumes "iter_range_ops kvs = Inl e"
  shows "range_to_mongo kvs = Inl e"
  using assms by (simp add: range_to_mongo_def)




lemma select_by_fields_not_built:
  assumes "\<And>x. build_clauses sm criteria [] \<noteq> Built x"
  shows "snd (select_by_fields eng sm criteria offset limit sort_by sort_desc) = eng
    \<and> (fst (select_by_fields eng sm criteria offset limit sort_by sort_desc) = Inr []
       \<or> (\<exists>e. fst (select_by_fields eng sm criteria offset limit sort_by sort_desc) = Inl e
              \<and> is_ValueError e))"
proof (cases "build_clauses sm criteria []")
  case (Failed e)
  then have "is_ValueError e" by (rule build_clauses_Failed)
  with Failed show ?thesis by (simp add: select_by_fields_def)
next
  case Empty
  then show ?thesis by (simp add: select_by_fields_def)
next
  case (Built x)
  with assms [of x] show ?thesis by simp
qed

section \<open>Queries that are empty without a look at the store\<close>

lemma vacuous_criterion:
  "v = PList [] \<or> (\<exists>kvs. v = PDict kvs \<and> map_of kvs ''in'' = Some (PList [])) \<Longrightarrow> vacuous v"
  by (auto simp: dict_get_def)

lemma has_vacuous:
  assumes "(k, v) \<in> set criteria"
    and "v = PList [] \<or> (\<exists>kvs. v = PDict kvs \<and> map_of kvs ''in'' = Some (PList []))"
  shows "list_ex vacuous (map snd criteria)"
  using assms vacuous_criterion [of v] by (force simp: list_ex_iff)

text \<open>
  C8. In every backend \<open>list_by_fields\<close> with an empty criteria mapping returns the
  empty sequence, whatever the store holds and whatever offset, limit and sort are
  asked for: for the in-memory repository, for the two translators \<open>_find_by_fields\<close>
  and \<open>_select_by_fields\<close> (which leave the collection and the engine untouched), and
  for the repository methods of the document store and the relational store built on
  them.
\<close>

theorem empty_criteria_yields_empty:
  "MemoryRepository_list_by_fields r [] offset limit sort_by sort_desc = Inr []
   \<and> find_by_fields col mm [] offset limit sort_by sort_desc = (Inr [], col)
   \<and> select_by_fields eng sm [] offset limit sort_by sort_desc = (Inr [], eng)
   \<and> fst (MongoRepository_list_by_fields mr [] offset limit sort_by sort_desc) = Inr []
   \<and> fst (SqlAlchemyRepository_list_by_fields sr [] offset limit sort_by sort_desc) = Inr []"
  by (simp add: MemoryRepository_list_by_fields_def find_by_fields_def select_by_fields_def
      MongoRepository_list_by_fields_def SqlAlchemyRepository_list_by_fields_def)

text \<open>
  C2, as amended. A criteria set with a criterion that is an empty list, or a mapping
  whose \<open>in\<close> is the empty list, makes \<open>list_by_fields\<close> return the empty sequence
  without a query: the in-memory repository returns at once, and \<open>_find_by_fields\<close>
  and \<open>_select_by_fields\<close> return with the collection and the engine exactly as they
  were. The methods of the document-store and relational repositories run
  \<open>_ensure_indexes\<close> before that, as every data operation does: a repository that is
  initialised is left as it was, and one that is not makes its index-creation calls,
  and only those.
\<close>

theorem vacuous_criteria_short_circuit:
  assumes "(k, v) \<in> set criteria"
    and "v = PList [] \<or> (\<exists>kvs. v = PDict kvs \<and> map_of kvs ''in'' = Some (PList []))"
  shows "MemoryRepository_list_by_fields r criteria offset limit sort_by sort_desc = Inr []
   \<and> find_by_fields col mm criteria offset limit sort_by sort_desc = (Inr [], col)
   \<and> select_by_fields eng sm criteria offset limit sort_by sort_desc = (Inr [], eng)
   \<and> MongoRepository_list_by_fields mr criteria offset limit sort_by sort_desc
       = (Inr [], MongoRepository_ensure_indexes mr)
   \<and> SqlAlchemyRepository_list_by_fields sr criteria offset limit sort_by sort_desc
       = (Inr [], SqlAlchemyRepository_ensure_indexes sr)
   \<and> (if mr_inited mr then MongoRepository_ensure_indexes mr = mr
       else col_calls (mr_col (MongoRepository_ensure_indexes mr))
            = col_calls (mr_col mr)
              @ map (\<lambda>(name, field). CreateIndex field (''uniq_'' @ name))
                  (mg_unique_fields (mr_mapper mr)))
   \<and> (if sr_inited sr then SqlAlchemyRepository_ensure_indexes sr = sr
       else eng_calls (sr_engine (SqlAlchemyRepository_ensure_indexes sr))
            = eng_calls (sr_engine sr)
              @ [RunSync (sq_unique_columns (sr_mapper sr)) (sr_fk_map sr)])"
proof -
  have vac: "list_ex vacuous (map snd criteria)"
    using assms by (rule has_vacuous)
  have mem: "MemoryRepository_list_by_fields r criteria offset limit sort_by sort_desc = Inr []"
    using vac by (simp add: MemoryRepository_list_by_fields_def)
  have mg: "\<And>c. find_by_fields c mm criteria offset limit sort_by sort_desc = (Inr [], c)"
    using vac by (simp add: find_by_fields_def)
  have sq: "\<And>e. select_by_fields e sm criteria offset limit sort_by sort_desc = (Inr [], e)"
    using vac by (simp add: select_by_fields_def)
  have mgr: "MongoRepository_list_by_fields mr criteria offset limit sort_by sort_desc
       = (Inr [], MongoRepository_ensure_indexes mr)"
    using vac by (simp add: MongoRepository_list_by_fields_def find_by_fields_def Let_def)
  have sqr: "SqlAlchemyRepository_list_by_fields sr criteria offset limit sort_by sort_desc
       = (Inr [], SqlAlchemyRepository_ensure_indexes sr)"
    using vac by (simp add: SqlAlchemyRepository_list_by_fields_def select_by_fields_def Let_def)
  have mge: "(if mr_inited mr then MongoRepository_ensure_indexes mr = mr
       else col_calls (mr_col (MongoRepository_ensure_indexes mr))
            = col_calls (mr_col mr)
              @ map (\<lambda>(name, field). CreateIndex field (''uniq_'' @ name))
                  (mg_unique_fields (mr_mapper mr)))"
    by (simp add: MongoRepository_ensure_indexes_def MongoRepository_init_indexes_def)
  have sqe: "(if sr_inited sr then SqlAlchemyRepository_ensure_indexes sr = sr
       else eng_calls (sr_engine (SqlAlchemyRepository_ensure_indexes sr))
            = eng_calls (sr_engine sr)
              @ [RunSync (sq_unique_columns (sr_mapper sr)) (sr_fk_map sr)])"
    by (simp add: SqlAlchemyRepository_ensure_indexes_def SqlAlchemyRepository_init_indexes_def)
  show ?thesis using mem mg sq mgr sqr mge sqe by simp
qed

text \<open>The hypotheses of C2 hold for a criteria set with an empty list, here on the
  repositories that are still to be initialised.\<close>

theorem vacuous_criteria_short_circuit_witness:
  "MemoryRepository_list_by_fields one_customer [(''email'', PList [])] 0 (Some 50) None False
     = Inr []
   \<and> find_by_fields (mr_col fresh_mongo_repo) customer_mongo_mapper [(''email'', PList [])]
       0 (Some 50) None False = (Inr [], mr_col fresh_mongo_repo)
   \<and> select_by_fields (sr_engine fresh_sql_repo) customer_sql_mapper [(''email'', PList [])]
       0 (Some 50) None False = (Inr [], sr_engine fresh_sql_repo)"
proof -
  have a: "(''email'', PList []) \<in> set [(''email'', PList [])]" by simp
  have b: "PList [] = PList []
           \<or> (\<exists>kvs. PList [] = PDict kvs \<and> map_of kvs ''in'' = Some (PList []))"
    by simp
  from vacuous_criteria_short_circuit [OF a b, of one_customer 0 "Some 50" None False
      "mr_col fresh_mongo_repo" customer_mongo_mapper "sr_engine fresh_sql_repo"
      customer_sql_mapper]
  show ?thesis by blast
qed

text \<open>
  C2 as it was stated fails on a relational repository whose indexes are not yet
  initialised: the query is vacuous and the result empty, but the engine has run the
  table and index creation first.
\<close>

theorem fresh_repo_initialises_before_guard:
  "eng_calls (sr_engine fresh_sql_repo) = []
   \<and> fst (SqlAlchemyRepository_list_by_fields fresh_sql_repo [(''email'', PList [])]
          0 (Some 50) None False) = Inr []
   \<and> eng_calls (sr_engine (snd (SqlAlchemyRepository_list_by_fields fresh_sql_repo
          [(''email'', PList [])] 0 (Some 50) None False)))
       = [RunSync [(''email'', ''email'')] []]"
  by (simp add: SqlAlchemyRepository_list_by_fields_def select_by_fields_def
      SqlAlchemyRepository_ensure_indexes_def SqlAlchemyRepository_init_indexes_def
      fresh_sql_repo_def customer_sql_mapper_def)

section \<open>Validation of field names, sort attributes and range operators\<close>

text \<open>What the in-memory repository can raise: the errors of a malformed range mapping
  and the \<open>TypeError\<close> of a comparison, never an error about a name.\<close>

lemma check_range_ops_no_name:
  "check_range_ops ops = Some e \<Longrightarrow> \<not> is_name_error e"
  by (induction ops rule: check_range_ops.induct)
     (auto split: if_splits pyval.splits)

lemma iter_range_ops_no_name:
  "iter_range_ops kvs = Inl e \<Longrightarrow> \<not> is_name_error e"
  by (auto simp: iter_range_ops_def split: if_splits option.splits
      dest: check_range_ops_no_name)

lemma match_ops_cases:
  "case match_ops val ops of Inl e \<Rightarrow> e = TypeError | Inr b \<Rightarrow> True"
proof (induction ops)
  case Nil
  show ?case by simp
next
  case (Cons a ops)
  obtain op v where a: "a = (op, v)" by (cases a)
  note ih = Cons.IH
  consider "op = ''between''" | "op = ''gte''" | "op = ''gt''" | "op = ''lte''" | "op = ''lt''"
    | "op = ''in''" | "op = ''eq''" | "op = ''ne''"
    | "op \<notin> set [''between'', ''gte'', ''gt'', ''lte'', ''lt'', ''in'', ''eq'', ''ne'']"
    by auto
  then show ?case
  proof cases
    case 1
    with ih show ?thesis unfolding a
      by (simp split: pyval.split list.split option.split bool.split)
  next
    case 2
    with ih show ?thesis unfolding a by (simp split: option.split bool.split)
  next
    case 3
    with ih show ?thesis unfolding a by (simp split: option.split bool.split)
  next
    case 4
    with ih show ?thesis unfolding a by (simp split: option.split bool.split)
  next
    case 5
    with ih show ?thesis unfolding a by (simp split: option.split bool.split)
  next
    case 6
    with ih show ?thesis unfolding a by (simp split: pyval.split)
  next
    case 7
    with ih show ?thesis unfolding a by auto
  next
    case 8
    with ih show ?thesis unfolding a by auto
  next
    case 9
    with ih show ?thesis unfolding a by simp
  qed
qed

lemma match_ops_TypeError:
  "match_ops val ops = Inl e \<Longrightarrow> e = TypeError"
  using match_ops_cases [of val ops] by simp


lemma match_value_no_name:
  "match_value val cond = Inl e \<Longrightarrow> \<not> is_name_error e"
  by (cases cond)
     (auto split: sum.splits if_splits dest: iter_range_ops_no_name match_ops_TypeError)

lemma entity_matches_no_name:
  "entity_matches ent criteria = Inl e \<Longrightarrow> \<not> is_name_error e"
  by (induction ent criteria rule: entity_matches.induct)
     (auto split: sum.splits if_splits dest: match_value_no_name)

lemma collect_matched_no_name:
  "collect_matched ents criteria = Inl e \<Longrightarrow> \<not> is_name_error e"
  by (induction ents criteria rule: collect_matched.induct)
     (auto split: sum.splits if_splits dest: entity_matches_no_name)

lemma py_sort_TypeError:
  "py_sort key reverse xs = Inl e \<Longrightarrow> e = TypeError"
  by (auto simp: py_sort_def split: if_splits)

lemma memory_list_by_fields_no_name:
  "MemoryRepository_list_by_fields r criteria offset limit sort_by sort_desc = Inl e
     \<Longrightarrow> \<not> is_name_error e"
  by (auto simp: MemoryRepository_list_by_fields_def Let_def
      split: if_splits sum.splits option.splits
      dest: collect_matched_no_name py_sort_TypeError)

text \<open>
  C3, as amended. The relational translator checks the field names, after the guard
  for vacuous queries: for a criteria set without a vacuous criterion that names a
  field the mapper does not know, \<open>_select_by_fields\<close> runs no statement and returns no
  entity. It raises a \<open>ValueError\<close>, the one for that field when the criteria before
  it translate, or it returns the empty sequence because an empty range mapping comes
  before the field. The in-memory repository has no mapper and checks no field name:
  whatever it raises for these criteria, of whatever store, is no error about a field.
\<close>

theorem relational_unknown_field:
  assumes "(k, v) \<in> set criteria"
    and "\<not> sq_has_attr sm k"
    and "\<not> list_ex vacuous (map snd criteria)"
  shows "snd (select_by_fields eng sm criteria offset limit sort_by sort_desc) = eng
   \<and> (fst (select_by_fields eng sm criteria offset limit sort_by sort_desc) = Inr []
      \<or> (\<exists>e. fst (select_by_fields eng sm criteria offset limit sort_by sort_desc) = Inl e
             \<and> is_ValueError e))
   \<and> (\<forall>pre post cs. criteria = pre @ (k, v) # post \<and> build_clauses sm pre [] = Built cs
        \<longrightarrow> select_by_fields eng sm criteria offset limit sort_by sort_desc
              = (Inl (InvalidField k), eng))
   \<and> (\<forall>r lim e. MemoryRepository_list_by_fields r criteria offset lim sort_by sort_desc = Inl e
        \<longrightarrow> (\<forall>n. e \<noteq> InvalidField n))"
proof -
  have nb: "\<And>x. build_clauses sm criteria [] \<noteq> Built x"
    using assms(1,2) by (rule build_clauses_unknown_field)
  have ne: "criteria \<noteq> []" using assms(1) by auto
  have exact: "select_by_fields eng sm criteria offset limit sort_by sort_desc
              = (Inl (InvalidField k), eng)"
    if "criteria = pre @ (k, v) # post" "build_clauses sm pre [] = Built cs" for pre post cs
  proof -
    have "build_clauses sm criteria [] = Failed (InvalidField k)"
      using that assms(2) by (simp add: build_clauses_append)
    then show ?thesis using ne assms(3) by (simp add: select_by_fields_def)
  qed
  have mem: "\<forall>n. e \<noteq> InvalidField n"
    if "MemoryRepository_list_by_fields r criteria offset lim sort_by sort_desc = Inl e"
    for r lim e
    using memory_list_by_fields_no_name [OF that] by auto
  show ?thesis
    using select_by_fields_not_built [of sm criteria eng offset limit sort_by sort_desc] nb exact
      mem
    by blast
qed

text \<open>The hypotheses of C3 at a criteria set whose second field is unknown; the
  in-memory repository answers the same criteria with the empty sequence.\<close>

theorem relational_unknown_field_witness:
  "select_by_fields (sr_engine fresh_sql_repo) customer_sql_mapper
     [(''total'', PInt 5), (''nope'', PInt 1)] 0 (Some 50) None False
   = (Inl (InvalidField ''nope''), sr_engine fresh_sql_repo)
   \<and> MemoryRepository_list_by_fields one_customer
       [(''total'', PInt 5), (''nope'', PInt 1)] 0 (Some 50) None False = Inr []"
proof -
  have a: "(''nope'', PInt 1) \<in> set [(''total'', PInt 5), (''nope'', PInt 1)]" by simp
  have b: "\<not> sq_has_attr customer_sql_mapper ''nope''" by (simp add: example_defs)
  have c: "\<not> list_ex vacuous (map snd [(''total'', PInt 5), (''nope'', PInt 1)])" by simp
  have d: "[(''total'', PInt 5), (''nope'', PInt 1)] = [(''total'', PInt 5)] @ (''nope'', PInt 1) # []"
    by simp
  have e: "build_clauses customer_sql_mapper [(''total'', PInt 5)] [] = Built [Eq ''total'' (PInt 5)]"
    by (simp add: example_defs)
  have m: "MemoryRepository_list_by_fields one_customer
       [(''total'', PInt 5), (''nope'', PInt 1)] 0 (Some 50) None False = Inr []"
    by (simp add: example_defs MemoryRepository_list_by_fields_def)
  from relational_unknown_field [OF a b c, of "sr_engine fresh_sql_repo" 0 "Some 50" None False] d e
  have "select_by_fields (sr_engine fresh_sql_repo) customer_sql_mapper
     [(''total'', PInt 5), (''nope'', PInt 1)] 0 (Some 50) None False
   = (Inl (InvalidField ''nope''), sr_engine fresh_sql_repo)"
    by blast
  with m show ?thesis by simp
qed

text \<open>
  C3 as it was stated fails: the in-memory repository has no mapper and reads the
  name \<open>nope\<close>, which no customer has, as \<open>None\<close>, and in the relational translator
  the guard for vacuous queries answers before any field is checked.
\<close>

theorem unknown_field_not_validated_everywhere:
  "MemoryRepository_add customers (Customer 1 ''a@x'' 5) = Inr one_customer
   \<and> MemoryRepository_list_by_fields one_customer [(''nope'', PInt 1)] 0 (Some 50) None False = Inr []
   \<and> \<not> sq_has_attr customer_sql_mapper ''nope''
   \<and> select_by_fields (sr_engine fresh_sql_repo) customer_sql_mapper
        [(''nope'', PInt 1), (''email'', PList [])] 0 (Some 50) None False
       = (Inr [], sr_engine fresh_sql_repo)"
  by (simp add: example_defs MemoryRepository_add_def MemoryRepository_list_by_fields_def
      select_by_fields_def)

lemma none_keys_not_comparable:
  assumes "list_all (\<lambda>k. k = PNone) ks" and "2 \<le> length ks"
  shows "\<not> pairwise_comparable ks"
proof -
  from assms(2) obtain a b rest where "ks = a # b # rest"
    by (cases ks; cases "tl ks") auto
  with assms(1) show ?thesis by (simp add: comparable_def)
qed

text \<open>
  C6, as amended. In the document-store and relational repositories \<open>list\<close> with a
  \<open>sort_by\<close> the mapper does not know raises the \<open>ValueError\<close> for that attribute and
  runs no query, and so does \<open>list_by_fields\<close> when the criteria have been translated
  into a filter (a criteria set that is not empty, has no vacuous criterion and
  translates). Only \<open>_ensure_indexes\<close> has run before, which leaves an initialised
  repository as it was. The in-memory repository has no mapper and sorts by the
  attribute as it is: when no entity has it, every key is \<open>None\<close>, so a store of at most
  one entity comes back as it is, and a larger one raises the \<open>TypeError\<close> of the
  comparison.
\<close>

theorem unknown_sort_attribute:
  assumes "\<not> mg_has_attr (mr_mapper mr) f"
    and "\<not> sq_has_attr (sr_mapper sr) f"
  shows "MongoRepository_list mr offset limit (Some f) sort_desc
       = (Inl (InvalidSort f), MongoRepository_ensure_indexes mr)
   \<and> SqlAlchemyRepository_list sr offset limit (Some f) sort_desc
       = (Inl (InvalidSort f), SqlAlchemyRepository_ensure_indexes sr)
   \<and> (\<forall>q. build_query (mr_mapper mr) criteria [] = Built q
             \<and> criteria \<noteq> [] \<and> \<not> list_ex vacuous (map snd criteria)
        \<longrightarrow> MongoRepository_list_by_fields mr criteria offset lim (Some f) sort_desc
              = (Inl (InvalidSort f), MongoRepository_ensure_indexes mr))
   \<and> (\<forall>cs. build_clauses (sr_mapper sr) criteria [] = Built cs
             \<and> criteria \<noteq> [] \<and> \<not> list_ex vacuous (map snd criteria)
        \<longrightarrow> SqlAlchemyRepository_list_by_fields sr criteria offset lim (Some f) sort_desc
              = (Inl (InvalidSort f), SqlAlchemyRepository_ensure_indexes sr))
   \<and> (mr_inited mr \<longrightarrow> MongoRepository_ensure_indexes mr = mr)
   \<and> (sr_inited sr \<longrightarrow> SqlAlchemyRepository_ensure_indexes sr = sr)
   \<and> (list_all (\<lambda>e. get_field_value e f = PNone) (map snd (items r))
        \<longrightarrow> MemoryRepository_list r offset limit (Some f) sort_desc
              = (if length (items r) \<le> 1
                 then Inr (slice (map snd (items r)) offset (offset + limit))
                 else Inl TypeError))"
proof -
  have m1: "mr_mapper (MongoRepository_ensure_indexes mr) = mr_mapper mr"
    by (simp add: MongoRepository_ensure_indexes_def MongoRepository_init_indexes_def)
  have s1: "sr_mapper (SqlAlchemyRepository_ensure_indexes sr) = sr_mapper sr"
    by (simp add: SqlAlchemyRepository_ensure_indexes_def SqlAlchemyRepository_init_indexes_def)
  have a: "MongoRepository_list mr offset limit (Some f) sort_desc
       = (Inl (InvalidSort f), MongoRepository_ensure_indexes mr)"
    using assms(1) m1 by (simp add: MongoRepository_list_def Let_def)
  have b: "SqlAlchemyRepository_list sr offset limit (Some f) sort_desc
       = (Inl (InvalidSort f), SqlAlchemyRepository_ensure_indexes sr)"
    using assms(2) s1 by (simp add: SqlAlchemyRepository_list_def order_and_run_def Let_def)
  have c: "MongoRepository_list_by_fields mr criteria offset lim (Some f) sort_desc
              = (Inl (InvalidSort f), MongoRepository_ensure_indexes mr)"
    if "build_query (mr_mapper mr) criteria [] = Built q" "criteria \<noteq> []"
       "\<not> list_ex vacuous (map snd criteria)" for q
    using that assms(1) m1
    by (simp add: MongoRepository_list_by_fields_def find_by_fields_def Let_def)
  have d: "SqlAlchemyRepository_list_by_fields sr criteria offset lim (Some f) sort_desc
              = (Inl (InvalidSort f), SqlAlchemyRepository_ensure_indexes sr)"
    if "build_clauses (sr_mapper sr) criteria [] = Built cs" "criteria \<noteq> []"
       "\<not> list_ex vacuous (map snd criteria)" for cs
    using that assms(2) s1
    by (simp add: SqlAlchemyRepository_list_by_fields_def select_by_fields_def
        order_and_run_def Let_def)
  have e: "mr_inited mr \<longrightarrow> MongoRepository_ensure_indexes mr = mr"
    by (simp add: MongoRepository_ensure_indexes_def)
  have g: "sr_inited sr \<longrightarrow> SqlAlchemyRepository_ensure_indexes sr = sr"
    by (simp add: SqlAlchemyRepository_ensure_indexes_def)
  have h: "MemoryRepository_list r offset limit (Some f) sort_desc
              = (if length (items r) \<le> 1
                 then Inr (slice (map snd (items r)) offset (offset + limit))
                 else Inl TypeError)"
    if "list_all (\<lambda>e. get_field_value e f = PNone) (map snd (items r))"
  proof -
    have "\<not> pairwise_comparable (map (\<lambda>e. get_field_value e f) (map snd (items r)))"
      if "\<not> length (items r) \<le> 1"
    proof (rule none_keys_not_comparable)
      show "list_all (\<lambda>k. k = PNone) (map (\<lambda>e. get_field_value e f) (map snd (items r)))"
        using \<open>list_all (\<lambda>e. get_field_value e f = PNone) (map snd (items r))\<close>
        by (simp add: list_all_iff)
      show "2 \<le> length (map (\<lambda>e. get_field_value e f) (map snd (items r)))"
        using that by simp
    qed
    then show ?thesis by (simp add: MemoryRepository_list_def py_sort_def)
  qed
  show ?thesis using a b c d e g h by blast
qed

text \<open>The hypotheses of C6 at the attribute \<open>nope\<close> of the customer mappers.\<close>

theorem unknown_sort_attribute_witness:
  "MongoRepository_list fresh_mongo_repo 0 50 (Some ''nope'') False
       = (Inl (InvalidSort ''nope''), MongoRepository_ensure_indexes fresh_mongo_repo)
   \<and> SqlAlchemyRepository_list fresh_sql_repo 0 50 (Some ''nope'') False
       = (Inl (InvalidSort ''nope''), SqlAlchemyRepository_ensure_indexes fresh_sql_repo)
   \<and> SqlAlchemyRepository_list_by_fields fresh_sql_repo [(''total'', PInt 5)] 0 (Some 50)
        (Some ''nope'') False
       = (Inl (InvalidSort ''nope''), SqlAlchemyRepository_ensure_indexes fresh_sql_repo)"
proof -
  have a: "\<not> mg_has_attr (mr_mapper fresh_mongo_repo) ''nope''" by (simp add: example_defs)
  have b: "\<not> sq_has_attr (sr_mapper fresh_sql_repo) ''nope''" by (simp add: example_defs)
  have c: "build_clauses (sr_mapper fresh_sql_repo) [(''total'', PInt 5)] []
             = Built [Eq ''total'' (PInt 5)]"
    by (simp add: example_defs)
  have d: "[(''total'', PInt 5)] \<noteq> [] \<and> \<not> list_ex vacuous (map snd [(''total'', PInt 5)])"
    by simp
  from unknown_sort_attribute [OF a b, of 0 50 False "[(''total'', PInt 5)]" "Some 50"] c d
  show ?thesis by blast
qed

text \<open>
  C6 as it was stated fails: the in-memory repository never checks \<open>sort_by\<close> (an
  unknown attribute is the key \<open>None\<close> for every entity), and in the relational
  translator the guard for vacuous queries answers before the sort attribute is
  looked at.
\<close>

theorem unknown_sort_not_validated_everywhere:
  "MemoryRepository_add customers (Customer 1 ''a@x'' 5) = Inr one_customer
   \<and> MemoryRepository_list one_customer 0 50 (Some ''nope'') False = Inr [Customer 1 ''a@x'' 5]
   \<and> MemoryRepository_list_by_fields one_customer [(''total'', PInt 5)] 0 (Some 50)
        (Some ''nope'') False = Inr [Customer 1 ''a@x'' 5]
   \<and> \<not> sq_has_attr customer_sql_mapper ''nope''
   \<and> select_by_fields (sr_engine fresh_sql_repo) customer_sql_mapper
        [(''email'', PList [])] 0 (Some 50) (Some ''nope'') False
       = (Inr [], sr_engine fresh_sql_repo)"
  by (simp add: example_defs MemoryRepository_add_def MemoryRepository_list_by_fields_def
      MemoryRepository_list_def py_sort_def slice_def slice_to_def slice_bound_def
      select_by_fields_def)




section \<open>The in-memory repository against the repository contract\<close>

text \<open>
  C1. The claim: in every backend, \<open>update\<close> of an entity whose identity is not stored
  leaves the store as it is. The in-memory \<open>update\<close> assigns \<open>self._items[eid] = entity\<close>
  without looking for \<open>eid\<close> first, so on the empty repository it stores the entity:
  the count goes from 0 to 1.
\<close>

theorem memory_update_absent_inserts:
  "items customers = []
   \<and> MemoryRepository_get customers (PInt 1) = None
   \<and> map_sum id items (MemoryRepository_update customers (Customer 1 ''a@x'' 5))
       = Inr [(PInt 1, Customer 1 ''a@x'' 5)]"
  by (simp add: example_defs memory_defs)

text \<open>
  C5. The claim: no two stored identities share the value of a unique index, and an
  \<open>add\<close> that collides raises. The in-memory \<open>add\<close> overwrites the index entry: after
  two customers with the same email are added, both are stored, nothing was raised,
  and the index points at the second.
\<close>

theorem memory_add_collision_succeeds:
  "run_ops customers [Add (Customer 1 ''a@x'' 5), Add (Customer 2 ''a@x'' 7)]
     = Inr \<lparr> id_getter = attrgetter ''id'',
             items = [(PInt 1, Customer 1 ''a@x'' 5), (PInt 2, Customer 2 ''a@x'' 7)],
             indexes = [(''email'', [(PStr ''a@x'', PInt 2)])],
             extractors = [(''email'', attrgetter ''email'')] \<rparr>
   \<and> attrgetter ''email'' (Customer 1 ''a@x'' 5) = attrgetter ''email'' (Customer 2 ''a@x'' 7)"
  by (simp add: example_defs memory_defs)

subsection \<open>The unique indexes\<close>

lemma wf_init: "distinct (map fst unique_indexes) \<Longrightarrow> wf_repo (MemoryRepository_init idg unique_indexes)"
  by (simp add: wf_repo_def MemoryRepository_init_def case_prod_unfold comp_def)

lemma map_fst_update_present:
  "k \<in> fst ` set al \<Longrightarrow> map fst (AList.update k v al) = map fst al"
  by (induction al) auto

lemma index_entity_ok:
  assumes "fst ` set exts \<subseteq> fst ` set idxs"
  shows "\<exists>idxs'. index_entity exts entity eid idxs = Inr idxs' \<and> map fst idxs' = map fst idxs"
  using assms
proof (induction exts arbitrary: idxs)
  case Nil
  show ?case by simp
next
  case (Cons a exts)
  obtain name ext where a: "a = (name, ext)" by (cases a)
  with Cons.prems have "name \<in> fst ` set idxs" by auto
  then obtain idx where idx: "map_of idxs name = Some idx"
    by (metis domD dom_map_of_conv_image_fst)
  let ?idxs = "AList.update name (AList.update (ext entity) eid idx) idxs"
  have keys: "map fst ?idxs = map fst idxs"
    using \<open>name \<in> fst ` set idxs\<close> by (rule map_fst_update_present)
  then have "fst ` set ?idxs = fst ` set idxs" by (metis set_map)
  with Cons.prems a have "fst ` set exts \<subseteq> fst ` set ?idxs" by auto
  from Cons.IH [OF this] keys a idx show ?case by auto
qed

lemma index_entity_other:
  "index_entity exts entity eid idxs = Inr idxs' \<Longrightarrow> name \<notin> fst ` set exts
     \<Longrightarrow> map_of idxs' name = map_of idxs name"
proof (induction exts arbitrary: idxs)
  case Nil
  then show ?case by simp
next
  case (Cons a exts)
  obtain n ext where a: "a = (n, ext)" by (cases a)
  with Cons.prems(1) obtain idx where idx: "map_of idxs n = Some idx"
    and rest: "index_entity exts entity eid
                 (AList.update n (AList.update (ext entity) eid idx) idxs) = Inr idxs'"
    by (auto split: option.splits)
  from Cons.prems(2) a have "name \<noteq> n" "name \<notin> fst ` set exts" by auto
  with Cons.IH [OF rest] show ?case by (simp add: update_conv')
qed

lemma index_entity_at:
  assumes "index_entity exts entity eid idxs = Inr idxs'"
    and "distinct (map fst exts)" "(name, ext) \<in> set exts" "map_of idxs name = Some idx"
  shows "map_of idxs' name = Some (AList.update (ext entity) eid idx)"
  using assms
proof (induction exts arbitrary: idxs)
  case Nil
  then show ?case by simp
next
  case (Cons a exts)
  obtain n x where a: "a = (n, x)" by (cases a)
  with Cons.prems(1) obtain i where i: "map_of idxs n = Some i"
    and rest: "index_entity exts entity eid
                 (AList.update n (AList.update (x entity) eid i) idxs) = Inr idxs'"
    by (auto split: option.splits)
  show ?case
  proof (cases "a = (name, ext)")
    case True
    with a have eq: "n = name" "x = ext" by simp_all
    with Cons.prems(2) a have "name \<notin> fst ` set exts" by simp
    from index_entity_other [OF rest this] eq i Cons.prems(4) show ?thesis
      by (simp add: update_conv')
  next
    case False
    with Cons.prems(3) have mem: "(name, ext) \<in> set exts" by simp
    with Cons.prems(2) a have "n \<noteq> name" by (auto simp: rev_image_eqI)
    then have "map_of (AList.update n (AList.update (x entity) eid i) idxs) name = Some idx"
      using Cons.prems(4) by (simp add: update_conv')
    moreover from Cons.prems(2) have "distinct (map fst exts)" by simp
    ultimately show ?thesis using Cons.IH [OF rest _ mem] by blast
  qed
qed

lemma unindex_entity_ok:
  assumes "fst ` set exts \<subseteq> fst ` set idxs"
  shows "\<exists>idxs'. unindex_entity exts ent i idxs = Inr idxs' \<and> map fst idxs' = map fst idxs"
  using assms
proof (induction exts arbitrary: idxs)
  case Nil
  show ?case by simp
next
  case (Cons a exts)
  obtain name ext where a: "a = (name, ext)" by (cases a)
  with Cons.prems have mem: "name \<in> fst ` set idxs" by auto
  then obtain idx where idx: "map_of idxs name = Some idx"
    by (metis domD dom_map_of_conv_image_fst)
  let ?idxs = "AList.update name (AList.delete (ext ent) idx) idxs"
  have keys: "map fst ?idxs = map fst idxs"
    using mem by (rule map_fst_update_present)
  then have "fst ` set ?idxs = fst ` set idxs" by (metis set_map)
  with Cons.prems a have sub: "fst ` set exts \<subseteq> fst ` set ?idxs"
    and sub': "fst ` set exts \<subseteq> fst ` set idxs" by auto
  from Cons.IH [OF sub] Cons.IH [OF sub'] keys a idx show ?case by (auto simp: Let_def)
qed

lemma unindex_entity_other:
  "unindex_entity exts ent i idxs = Inr idxs' \<Longrightarrow> name \<notin> fst ` set exts
     \<Longrightarrow> map_of idxs' name = map_of idxs name"
proof (induction exts arbitrary: idxs)
  case Nil
  then show ?case by simp
next
  case (Cons a exts)
  obtain n ext where a: "a = (n, ext)" by (cases a)
  from Cons.prems(2) a have ne: "name \<noteq> n" "name \<notin> fst ` set exts" by auto
  from Cons.prems(1) a obtain idx where idx: "map_of idxs n = Some idx"
    by (auto split: option.splits)
  show ?case
  proof (cases "dict_get idx (ext ent) = i")
    case True
    with Cons.prems(1) a idx have
      "unindex_entity exts ent i (AList.update n (AList.delete (ext ent) idx) idxs) = Inr idxs'"
      by (simp add: Let_def)
    from Cons.IH [OF this ne(2)] ne(1) show ?thesis by (simp add: update_conv')
  next
    case False
    with Cons.prems(1) a idx have "unindex_entity exts ent i idxs = Inr idxs'"
      by (simp add: Let_def)
    from Cons.IH [OF this ne(2)] show ?thesis .
  qed
qed

lemma unindex_entity_at:
  assumes "unindex_entity exts ent i idxs = Inr idxs'"
    and "distinct (map fst exts)" "(name, ext) \<in> set exts" "map_of idxs name = Some idx"
  shows "map_of idxs' name
           = Some (if dict_get idx (ext ent) = i then AList.delete (ext ent) idx else idx)"
  using assms
proof (induction exts arbitrary: idxs)
  case Nil
  then show ?case by simp
next
  case (Cons a exts)
  obtain n x where a: "a = (n, x)" by (cases a)
  from Cons.prems(1) a obtain j where j: "map_of idxs n = Some j"
    by (auto split: option.splits)
  let ?next = "if dict_get j (x ent) = i
               then AList.update n (AList.delete (x ent) j) idxs else idxs"
  from Cons.prems(1) a j have rest: "unindex_entity exts ent i ?next = Inr idxs'"
    by (auto simp: Let_def split: if_splits)
  show ?case
  proof (cases "a = (name, ext)")
    case True
    with a have eq: "n = name" "x = ext" by simp_all
    with Cons.prems(2) a have "name \<notin> fst ` set exts" by simp
    from unindex_entity_other [OF rest this] eq j Cons.prems(4) show ?thesis
      by (simp add: update_conv')
  next
    case False
    with Cons.prems(3) have mem: "(name, ext) \<in> set exts" by simp
    with Cons.prems(2) a have "n \<noteq> name" by (auto simp: rev_image_eqI)
    then have "map_of ?next name = Some idx"
      using Cons.prems(4) by (simp add: update_conv')
    moreover from Cons.prems(2) have "distinct (map fst exts)" by simp
    ultimately show ?thesis using Cons.IH [OF rest _ mem] by blast
  qed
qed

lemma wf_repo_keys: "wf_repo r \<Longrightarrow> fst ` set (extractors r) \<subseteq> fst ` set (indexes r)"
  by (metis wf_repo_def set_map subset_refl)

lemma get_by_index_found:
  assumes "map_of (indexes r) name = Some idx" "map_of idx v = Some i" "truthy i"
  shows "MemoryRepository_get_by_index r name v = map_of (items r) i"
proof -
  from assms(2) have "idx \<noteq> []" by auto
  with assms show ?thesis
    by (simp add: MemoryRepository_get_by_index_def dict_get_def)
qed

lemma get_by_index_missing:
  assumes "map_of (indexes r) name = Some idx" "map_of idx v = None"
  shows "MemoryRepository_get_by_index r name v = None"
  using assms by (simp add: MemoryRepository_get_by_index_def dict_get_def)

text \<open>
  The index after \<open>add\<close>, \<open>update\<close> and \<open>delete\<close>, for an identity and an entity that
  are truthy: \<open>update\<close> leaves the entry of the old value in place, so \<open>get_by_index\<close>
  finds the updated entity under the new and under the old value; \<open>delete\<close> removes
  the entry of the current value only, and the entry of the old value stays, pointing
  at an identity that is no longer stored.
\<close>

lemma memory_stale_index_entry:
  assumes wf: "wf_repo r" and ext: "(name, ext) \<in> set (extractors r)"
    and ids: "id_getter r e1 = i" "id_getter r e2 = i"
    and ti: "truthy i" and te: "truthy e2"
    and ne: "ext e2 \<noteq> ext e1"
  shows "\<exists>r1 r2 r3.
       MemoryRepository_add r e1 = Inr r1
     \<and> MemoryRepository_update r1 e2 = Inr r2
     \<and> MemoryRepository_get_by_index r2 name (ext e2) = Some e2
     \<and> MemoryRepository_get_by_index r2 name (ext e1) = Some e2
     \<and> MemoryRepository_delete r2 i = Inr r3
     \<and> MemoryRepository_get_by_index r3 name (ext e1) = None
     \<and> MemoryRepository_get_by_index r3 name (ext e2) = None
     \<and> (\<exists>idx. map_of (indexes r3) name = Some idx
              \<and> map_of idx (ext e1) = Some i \<and> map_of idx (ext e2) = None)"
proof -
  let ?exts = "extractors r"
  have dist: "distinct (map fst ?exts)" using wf by (simp add: wf_repo_def)
  have keys0: "fst ` set ?exts \<subseteq> fst ` set (indexes r)" using wf by (rule wf_repo_keys)
  from ext have "name \<in> fst ` set ?exts" by (auto simp: rev_image_eqI)
  with keys0 have "name \<in> fst ` set (indexes r)" by auto
  then obtain idx0 where idx0: "map_of (indexes r) name = Some idx0"
    by (metis domD dom_map_of_conv_image_fst)
  \<comment> \<open>add\<close>
  from index_entity_ok [OF keys0, of e1 i] obtain idxs1 where
    i1: "index_entity ?exts e1 i (indexes r) = Inr idxs1" "map fst idxs1 = map fst (indexes r)"
    by blast
  let ?r1 = "r\<lparr>items := AList.update i e1 (items r), indexes := idxs1\<rparr>"
  have add: "MemoryRepository_add r e1 = Inr ?r1"
    using i1(1) ids(1) by (simp add: MemoryRepository_add_def)
  have at1: "map_of idxs1 name = Some (AList.update (ext e1) i idx0)"
    using i1(1) dist ext idx0 by (rule index_entity_at)
  have keys1: "fst ` set ?exts \<subseteq> fst ` set idxs1"
    using keys0 i1(2) by (metis set_map)
  \<comment> \<open>update\<close>
  from index_entity_ok [OF keys1, of e2 i] obtain idxs2 where
    i2: "index_entity ?exts e2 i idxs1 = Inr idxs2" "map fst idxs2 = map fst idxs1"
    by blast
  let ?items2 = "AList.update i e2 (AList.update i e1 (items r))"
  let ?r2 = "r\<lparr>items := ?items2, indexes := idxs2\<rparr>"
  have upd: "MemoryRepository_update ?r1 e2 = Inr ?r2"
    using i2(1) ids(2) by (simp add: MemoryRepository_update_def)
  let ?idx2 = "AList.update (ext e2) i (AList.update (ext e1) i idx0)"
  have at2: "map_of idxs2 name = Some ?idx2"
    using i2(1) dist ext at1 by (rule index_entity_at)
  have v2: "map_of ?idx2 (ext e2) = Some i" by (simp add: update_conv')
  have v1: "map_of ?idx2 (ext e1) = Some i" using ne by (simp add: update_conv')
  have it2: "map_of ?items2 i = Some e2" by (simp add: update_conv')
  have g2: "MemoryRepository_get_by_index ?r2 name (ext e2) = Some e2"
    using get_by_index_found [of ?r2 name ?idx2 "ext e2" i] at2 v2 ti it2 by simp
  have g1: "MemoryRepository_get_by_index ?r2 name (ext e1) = Some e2"
    using get_by_index_found [of ?r2 name ?idx2 "ext e1" i] at2 v1 ti it2 by simp
  \<comment> \<open>delete\<close>
  have keys2: "fst ` set ?exts \<subseteq> fst ` set idxs2"
    using keys1 i2(2) by (metis set_map)
  from unindex_entity_ok [OF keys2, of e2 i] obtain idxs3 where
    i3: "unindex_entity ?exts e2 i idxs2 = Inr idxs3" by blast
  let ?r3 = "r\<lparr>items := AList.delete i ?items2, indexes := idxs3\<rparr>"
  have del: "MemoryRepository_delete ?r2 i = Inr ?r3"
    using i3 it2 te by (simp add: MemoryRepository_delete_def Let_def)
  let ?idx3 = "AList.delete (ext e2) ?idx2"
  have "dict_get ?idx2 (ext e2) = i" using v2 by (simp add: dict_get_def)
  with unindex_entity_at [OF i3 dist ext at2] have at3: "map_of idxs3 name = Some ?idx3"
    by simp
  have w1: "map_of ?idx3 (ext e1) = Some i" using v1 ne by (simp add: delete_conv')
  have w2: "map_of ?idx3 (ext e2) = None" by (simp add: delete_conv')
  have it3: "map_of (AList.delete i ?items2) i = None" by (simp add: delete_conv')
  have h1: "MemoryRepository_get_by_index ?r3 name (ext e1) = None"
    using get_by_index_found [of ?r3 name ?idx3 "ext e1" i] at3 w1 ti it3 by simp
  have h2: "MemoryRepository_get_by_index ?r3 name (ext e2) = None"
    using get_by_index_missing [of ?r3 name ?idx3 "ext e2"] at3 w2 by simp
  have st: "\<exists>idx. map_of (indexes ?r3) name = Some idx
              \<and> map_of idx (ext e1) = Some i \<and> map_of idx (ext e2) = None"
    using at3 w1 w2 by simp
  from add upd g2 g1 del h1 h2 st show ?thesis by blast
qed

text \<open>
  C10. The claim: after \<open>add\<close> and an \<open>update\<close> that changes the indexed value,
  \<open>get_by_index\<close> finds the updated entity under the new and under the old value.
  \<open>get_by_index\<close> tests the identity it found with \<open>if eid\<close>, so for the identity 0
  it finds nothing under either value, although the index holds both entries.
\<close>

theorem memory_get_by_index_falsy_identity:
  "run_ops customers [Add (Customer 0 ''a@x'' 5), Update (Customer 0 ''b@x'' 5)]
     = Inr \<lparr> id_getter = attrgetter ''id'',
             items = [(PInt 0, Customer 0 ''b@x'' 5)],
             indexes = [(''email'', [(PStr ''a@x'', PInt 0), (PStr ''b@x'', PInt 0)])],
             extractors = [(''email'', attrgetter ''email'')] \<rparr>
   \<and> MemoryRepository_get_by_index
         \<lparr> id_getter = attrgetter ''id'',
           items = [(PInt 0, Customer 0 ''b@x'' 5)],
           indexes = [(''email'', [(PStr ''a@x'', PInt 0), (PStr ''b@x'', PInt 0)])],
           extractors = [(''email'', attrgetter ''email'')] \<rparr>
         ''email'' (PStr ''b@x'') = None
   \<and> MemoryRepository_get_by_index
         \<lparr> id_getter = attrgetter ''id'',
           items = [(PInt 0, Customer 0 ''b@x'' 5)],
           indexes = [(''email'', [(PStr ''a@x'', PInt 0), (PStr ''b@x'', PInt 0)])],
           extractors = [(''email'', attrgetter ''email'')] \<rparr>
         ''email'' (PStr ''a@x'') = None"
  by (simp add: example_defs memory_defs)

section \<open>Sorting in the in-memory repository\<close>

lemma str_lt_less: "str_lt a b \<longleftrightarrow> a < b"
  by (induction a b rule: str_lt.induct) (auto simp: less_char_def)

lemma mset_insort_by: "mset (insort_by lt x ys) = add_mset x (mset ys)"
  by (induction ys) auto

lemma mset_stable_sort: "mset (stable_sort lt xs) = mset xs"
  by (induction xs) (auto simp: mset_insort_by)

lemma set_insort_by: "set (insort_by lt x ys) = insert x (set ys)"
  by (induction ys) auto

lemma set_stable_sort: "set (stable_sort lt xs) = set xs"
  by (induction xs) (auto simp: set_insort_by)

lemma insort_by_cong:
  "(\<And>y. y \<in> set ys \<Longrightarrow> lt y x = lt' y x) \<Longrightarrow> insort_by lt x ys = insort_by lt' x ys"
  by (induction ys) auto

lemma stable_sort_cong:
  "(\<And>a b. a \<in> set xs \<Longrightarrow> b \<in> set xs \<Longrightarrow> lt a b = lt' a b)
     \<Longrightarrow> stable_sort lt xs = stable_sort lt' xs"
proof (induction xs)
  case Nil
  show ?case by simp
next
  case (Cons x xs)
  then have "stable_sort lt xs = stable_sort lt' xs" by simp
  moreover have "insort_by lt x (stable_sort lt' xs) = insort_by lt' x (stable_sort lt' xs)"
    by (rule insort_by_cong) (simp add: set_stable_sort Cons.prems)
  ultimately show ?case by simp
qed

lemma sorted_insort_asc:
  fixes g :: "'a \<Rightarrow> 'k::linorder"
  shows "sorted_wrt (\<lambda>a b. g a \<le> g b) ys
     \<Longrightarrow> sorted_wrt (\<lambda>a b. g a \<le> g b) (insort_by (\<lambda>a b. g a < g b) x ys)"
  by (induction ys) (auto simp: set_insort_by)

lemma sorted_stable_sort_asc:
  fixes g :: "'a \<Rightarrow> 'k::linorder"
  shows "sorted_wrt (\<lambda>a b. g a \<le> g b) (stable_sort (\<lambda>a b. g a < g b) xs)"
  by (induction xs) (auto simp: sorted_insort_asc)

lemma sorted_insort_desc:
  fixes g :: "'a \<Rightarrow> 'k::linorder"
  shows "sorted_wrt (\<lambda>a b. g b \<le> g a) ys
     \<Longrightarrow> sorted_wrt (\<lambda>a b. g b \<le> g a) (insort_by (\<lambda>a b. g b < g a) x ys)"
  by (induction ys) (auto simp: set_insort_by)

lemma sorted_stable_sort_desc:
  fixes g :: "'a \<Rightarrow> 'k::linorder"
  shows "sorted_wrt (\<lambda>a b. g b \<le> g a) (stable_sort (\<lambda>a b. g b < g a) xs)"
  by (induction xs) (auto simp: sorted_insort_desc)

lemma filter_insort_asc:
  fixes g :: "'a \<Rightarrow> 'k::linorder"
  shows "filter (\<lambda>e. g e = k) (insort_by (\<lambda>a b. g a < g b) x ys)
     = (if g x = k then x # filter (\<lambda>e. g e = k) ys else filter (\<lambda>e. g e = k) ys)"
  by (induction ys) auto

lemma filter_insort_desc:
  fixes g :: "'a \<Rightarrow> 'k::linorder"
  shows "filter (\<lambda>e. g e = k) (insort_by (\<lambda>a b. g b < g a) x ys)
     = (if g x = k then x # filter (\<lambda>e. g e = k) ys else filter (\<lambda>e. g e = k) ys)"
  by (induction ys) auto

lemma stable_sort_asc_stable:
  fixes g :: "'a \<Rightarrow> 'k::linorder"
  shows "filter (\<lambda>e. g e = k) (stable_sort (\<lambda>a b. g a < g b) xs) = filter (\<lambda>e. g e = k) xs"
  by (induction xs) (simp_all add: filter_insort_asc)

lemma stable_sort_desc_stable:
  fixes g :: "'a \<Rightarrow> 'k::linorder"
  shows "filter (\<lambda>e. g e = k) (stable_sort (\<lambda>a b. g b < g a) xs) = filter (\<lambda>e. g e = k) xs"
  by (induction xs) (simp_all add: filter_insort_desc)

lemma stable_sort_desc_rev:
  fixes g :: "'a \<Rightarrow> 'k::linorder"
  assumes "distinct (map g xs)"
  shows "stable_sort (\<lambda>a b. g b < g a) xs = rev (stable_sort (\<lambda>a b. g a < g b) xs)"
proof -
  let ?A = "stable_sort (\<lambda>a b. g a < g b) xs"
  let ?D = "stable_sort (\<lambda>a b. g b < g a) xs"
  have mA: "mset (map g ?A) = mset (map g xs)" by (simp add: mset_stable_sort)
  have mD: "mset (map g (rev ?D)) = mset (map g xs)" by (simp add: mset_stable_sort)
  have dA: "distinct (map g ?A)" using assms mA by (metis mset_eq_imp_distinct_iff)
  have dD: "distinct (map g (rev ?D))" using assms mD by (metis mset_eq_imp_distinct_iff)
  have sA: "sorted (map g ?A)"
    using sorted_stable_sort_asc [of g xs] by (simp add: sorted_map)
  have "sorted_wrt (\<lambda>a b. g b \<le> g a) ?D" by (rule sorted_stable_sort_desc)
  then have sD: "sorted (map g (rev ?D))"
    by (simp add: sorted_map sorted_wrt_rev)
  have "set (map g ?A) = set (map g (rev ?D))"
    using mA mD by (metis set_mset_mset)
  with sA dA sD dD have eq: "map g ?A = map g (rev ?D)"
    by (rule sorted_distinct_set_unique)
  have inj: "inj_on g (set xs)" using assms by (simp add: distinct_map)
  have "?A = rev ?D"
  proof (rule map_inj_on [OF eq])
    show "inj_on g (set ?A \<union> set (rev ?D))"
      using inj by (simp add: set_stable_sort)
  qed
  then show ?thesis by (metis rev_rev_ident)
qed

lemma pairwise_comparable_keys:
  assumes "\<And>a b. a \<in> set ks \<Longrightarrow> b \<in> set ks \<Longrightarrow> py_lt a b \<noteq> None"
  shows "pairwise_comparable ks"
  using assms by (induction ks) (auto simp: list_all_iff comparable_def)

lemma py_sort_keyed:
  fixes g :: "pyval \<Rightarrow> 'k::linorder"
  assumes A: "\<And>a b. a \<in> set xs \<Longrightarrow> b \<in> set xs
                \<Longrightarrow> py_lt (key a) (key b) = Some (g a < g b)"
  shows "py_sort key False xs = Inr (stable_sort (\<lambda>a b. g a < g b) xs)"
    and "py_sort key True xs = Inr (stable_sort (\<lambda>a b. g b < g a) xs)"
proof -
  have pc: "pairwise_comparable (map key xs)"
    by (rule pairwise_comparable_keys) (auto simp: A)
  have asc: "stable_sort (\<lambda>a b. py_lt (key a) (key b) = Some True) xs
               = stable_sort (\<lambda>a b. g a < g b) xs"
    by (rule stable_sort_cong) (simp add: A)
  have desc: "stable_sort (\<lambda>a b. py_lt (key b) (key a) = Some True) xs
               = stable_sort (\<lambda>a b. g b < g a) xs"
    by (rule stable_sort_cong) (simp add: A)
  have short: "length xs \<le> 1 \<Longrightarrow> stable_sort lt xs = xs" for lt :: "pyval \<Rightarrow> pyval \<Rightarrow> bool"
    by (cases xs) auto
  show "py_sort key False xs = Inr (stable_sort (\<lambda>a b. g a < g b) xs)"
    using pc asc short [of "\<lambda>a b. g a < g b"] by (simp add: py_sort_def)
  show "py_sort key True xs = Inr (stable_sort (\<lambda>a b. g b < g a) xs)"
    using pc desc short [of "\<lambda>a b. g b < g a"] by (simp add: py_sort_def)
qed

lemma sorted_wrt_slice: "sorted_wrt P xs \<Longrightarrow> sorted_wrt P (slice xs start stop)"
  by (simp add: slice_def sorted_wrt_take sorted_wrt_drop)

lemma slice_all:
  "int (length xs) \<le> limit \<Longrightarrow> slice xs 0 (0 + limit) = xs"
  by (simp add: slice_def slice_bound_def)

lemma distinct_map_transfer:
  assumes "distinct (map key xs)"
    and "\<And>a b. a \<in> set xs \<Longrightarrow> b \<in> set xs \<Longrightarrow> (g a = g b) = (key a = key b)"
  shows "distinct (map g xs)"
  using assms by (auto simp: distinct_map inj_on_def)

lemma filter_key_stable:
  fixes g :: "'a \<Rightarrow> 'k::linorder"
  assumes B: "\<And>a b. a \<in> set xs \<Longrightarrow> b \<in> set xs \<Longrightarrow> (g a = g b) = (key a = key b)"
    and st: "\<And>k'. filter (\<lambda>a. g a = k') ys = filter (\<lambda>a. g a = k') xs"
    and se: "set ys = set xs"
  shows "filter (\<lambda>a. key a = k) ys = filter (\<lambda>a. key a = k) xs"
proof (cases "\<exists>e\<in>set xs. key e = k")
  case True
  then obtain e where e: "e \<in> set xs" "key e = k" by blast
  have "filter (\<lambda>a. key a = k) ys = filter (\<lambda>a. g a = g e) ys"
    by (rule filter_cong) (use e B se in auto)
  also have "\<dots> = filter (\<lambda>a. g a = g e) xs" by (rule st)
  also have "\<dots> = filter (\<lambda>a. key a = k) xs"
    by (rule filter_cong) (use e B in auto)
  finally show ?thesis .
next
  case False
  then have "filter (\<lambda>a. key a = k) xs = []" by (auto simp: filter_empty_conv)
  moreover from False se have "filter (\<lambda>a. key a = k) ys = []"
    by (auto simp: filter_empty_conv)
  ultimately show ?thesis by simp
qed

lemma memory_list_sorted_keyed:
  fixes g :: "pyval \<Rightarrow> 'k::linorder"
  assumes A: "\<And>a b. a \<in> snd ` set (items r) \<Longrightarrow> b \<in> snd ` set (items r)
                \<Longrightarrow> py_lt (get_field_value a f) (get_field_value b f) = Some (g a < g b)"
    and B: "\<And>a b. a \<in> snd ` set (items r) \<Longrightarrow> b \<in> snd ` set (items r)
                \<Longrightarrow> (g a = g b) = (get_field_value a f = get_field_value b f)"
  shows "\<exists>asc desc.
       MemoryRepository_list r offset limit (Some f) False = Inr asc
     \<and> MemoryRepository_list r offset limit (Some f) True = Inr desc
     \<and> sorted_wrt (\<lambda>a b. py_le (get_field_value a f) (get_field_value b f) = Some True) asc
     \<and> sorted_wrt (\<lambda>a b. py_le (get_field_value b f) (get_field_value a f) = Some True) desc
     \<and> (offset = 0 \<and> int (length (items r)) \<le> limit \<longrightarrow>
          mset asc = mset (map snd (items r))
        \<and> mset desc = mset (map snd (items r))
        \<and> (\<forall>k. filter (\<lambda>a. get_field_value a f = k) asc
                = filter (\<lambda>a. get_field_value a f = k) (map snd (items r)))
        \<and> (\<forall>k. filter (\<lambda>a. get_field_value a f = k) desc
                = filter (\<lambda>a. get_field_value a f = k) (map snd (items r)))
        \<and> (distinct (map (\<lambda>a. get_field_value a f) (map snd (items r))) \<longrightarrow> desc = rev asc))"
proof -
  let ?xs = "map snd (items r)"
  let ?key = "\<lambda>e. get_field_value e f"
  let ?A = "stable_sort (\<lambda>a b. g a < g b) ?xs"
  let ?D = "stable_sort (\<lambda>a b. g b < g a) ?xs"
  have A': "\<And>a b. a \<in> set ?xs \<Longrightarrow> b \<in> set ?xs \<Longrightarrow> py_lt (?key a) (?key b) = Some (g a < g b)"
    using A by simp
  have B': "\<And>a b. a \<in> set ?xs \<Longrightarrow> b \<in> set ?xs \<Longrightarrow> (g a = g b) = (?key a = ?key b)"
    using B by simp
  have sa: "py_sort ?key False ?xs = Inr ?A" and sd: "py_sort ?key True ?xs = Inr ?D"
    using py_sort_keyed [of ?xs ?key g] A' by blast+
  have la: "MemoryRepository_list r offset limit (Some f) False
              = Inr (slice ?A offset (offset + limit))"
    using sa by (simp add: MemoryRepository_list_def)
  have ld: "MemoryRepository_list r offset limit (Some f) True
              = Inr (slice ?D offset (offset + limit))"
    using sd by (simp add: MemoryRepository_list_def)
  have le: "\<And>a b. a \<in> set ?xs \<Longrightarrow> b \<in> set ?xs
              \<Longrightarrow> (py_le (?key a) (?key b) = Some True) = (g a \<le> g b)"
    using A' by (auto simp: py_le_def)
  have "sorted_wrt (\<lambda>a b. g a \<le> g b) ?A" by (rule sorted_stable_sort_asc)
  then have "sorted_wrt (\<lambda>a b. py_le (?key a) (?key b) = Some True) ?A"
    by (rule sorted_wrt_mono_rel [rotated]) (simp add: le set_stable_sort)
  then have s1: "sorted_wrt (\<lambda>a b. py_le (?key a) (?key b) = Some True)
                   (slice ?A offset (offset + limit))"
    by (rule sorted_wrt_slice)
  have "sorted_wrt (\<lambda>a b. g b \<le> g a) ?D" by (rule sorted_stable_sort_desc)
  then have "sorted_wrt (\<lambda>a b. py_le (?key b) (?key a) = Some True) ?D"
    by (rule sorted_wrt_mono_rel [rotated]) (simp add: le set_stable_sort)
  then have s2: "sorted_wrt (\<lambda>a b. py_le (?key b) (?key a) = Some True)
                   (slice ?D offset (offset + limit))"
    by (rule sorted_wrt_slice)
  have full: "mset (slice ?A offset (offset + limit)) = mset ?xs
        \<and> mset (slice ?D offset (offset + limit)) = mset ?xs
        \<and> (\<forall>k. filter (\<lambda>a. ?key a = k) (slice ?A offset (offset + limit))
                = filter (\<lambda>a. ?key a = k) ?xs)
        \<and> (\<forall>k. filter (\<lambda>a. ?key a = k) (slice ?D offset (offset + limit))
                = filter (\<lambda>a. ?key a = k) ?xs)
        \<and> (distinct (map ?key ?xs) \<longrightarrow>
              slice ?D offset (offset + limit) = rev (slice ?A offset (offset + limit)))"
    if page: "offset = 0" "int (length (items r)) \<le> limit"
  proof -
    have lenA: "length ?A = length (items r)"
      using mset_stable_sort [of "\<lambda>a b. g a < g b" ?xs] by (metis length_map size_mset)
    have lenD: "length ?D = length (items r)"
      using mset_stable_sort [of "\<lambda>a b. g b < g a" ?xs] by (metis length_map size_mset)
    have pa: "slice ?A offset (offset + limit) = ?A"
      using page lenA slice_all [of ?A limit] by simp
    have pd: "slice ?D offset (offset + limit) = ?D"
      using page lenD slice_all [of ?D limit] by simp
    have fa: "filter (\<lambda>a. ?key a = k) ?A = filter (\<lambda>a. ?key a = k) ?xs" for k
      by (rule filter_key_stable [where g = g])
         (use B' in \<open>auto simp: stable_sort_asc_stable set_stable_sort\<close>)
    have fd: "filter (\<lambda>a. ?key a = k) ?D = filter (\<lambda>a. ?key a = k) ?xs" for k
      by (rule filter_key_stable [where g = g])
         (use B' in \<open>auto simp: stable_sort_desc_stable set_stable_sort\<close>)
    have rv: "?D = rev ?A" if d: "distinct (map ?key ?xs)"
    proof (rule stable_sort_desc_rev)
      show "distinct (map g ?xs)"
        using d B' by (rule distinct_map_transfer)
    qed
    have ma: "mset ?A = mset ?xs" and md: "mset ?D = mset ?xs"
      by (rule mset_stable_sort)+
    show ?thesis
      unfolding pa pd using ma md fa fd rv by blast
  qed
  show ?thesis using la ld s1 s2 full by blast
qed

lemma memory_list_sorted:
  assumes "list_all (\<lambda>e. is_int (get_field_value e f)) (map snd (items r))
           \<or> list_all (\<lambda>e. is_str (get_field_value e f)) (map snd (items r))"
  shows "\<exists>asc desc.
       MemoryRepository_list r offset limit (Some f) False = Inr asc
     \<and> MemoryRepository_list r offset limit (Some f) True = Inr desc
     \<and> sorted_wrt (\<lambda>a b. py_le (get_field_value a f) (get_field_value b f) = Some True) asc
     \<and> sorted_wrt (\<lambda>a b. py_le (get_field_value b f) (get_field_value a f) = Some True) desc
     \<and> (offset = 0 \<and> int (length (items r)) \<le> limit \<longrightarrow>
          mset asc = mset (map snd (items r))
        \<and> mset desc = mset (map snd (items r))
        \<and> (\<forall>k. filter (\<lambda>a. get_field_value a f = k) asc
                = filter (\<lambda>a. get_field_value a f = k) (map snd (items r)))
        \<and> (\<forall>k. filter (\<lambda>a. get_field_value a f = k) desc
                = filter (\<lambda>a. get_field_value a f = k) (map snd (items r)))
        \<and> (distinct (map (\<lambda>a. get_field_value a f) (map snd (items r))) \<longrightarrow> desc = rev asc))"
  using assms
proof
  assume ints: "list_all (\<lambda>e. is_int (get_field_value e f)) (map snd (items r))"
  have k: "\<exists>i. get_field_value a f = PInt i" if "a \<in> snd ` set (items r)" for a
  proof -
    from ints that have "is_int (get_field_value a f)" by (auto simp: list_all_iff)
    then show ?thesis by (cases "get_field_value a f") auto
  qed
  show ?thesis
  proof (rule memory_list_sorted_keyed [where g = "\<lambda>e. int_of (get_field_value e f)"])
    fix a b assume "a \<in> snd ` set (items r)" "b \<in> snd ` set (items r)"
    then obtain i j where "get_field_value a f = PInt i" "get_field_value b f = PInt j"
      using k by blast
    then show "py_lt (get_field_value a f) (get_field_value b f)
                 = Some (int_of (get_field_value a f) < int_of (get_field_value b f))"
      and "(int_of (get_field_value a f) = int_of (get_field_value b f))
                 = (get_field_value a f = get_field_value b f)"
      by simp_all
  qed
next
  assume strs: "list_all (\<lambda>e. is_str (get_field_value e f)) (map snd (items r))"
  have k: "\<exists>s. get_field_value a f = PStr s" if "a \<in> snd ` set (items r)" for a
  proof -
    from strs that have "is_str (get_field_value a f)" by (auto simp: list_all_iff)
    then show ?thesis by (cases "get_field_value a f") auto
  qed
  show ?thesis
  proof (rule memory_list_sorted_keyed [where g = "\<lambda>e. str_of (get_field_value e f)"])
    fix a b assume "a \<in> snd ` set (items r)" "b \<in> snd ` set (items r)"
    then obtain s t where "get_field_value a f = PStr s" "get_field_value b f = PStr t"
      using k by blast
    then show "py_lt (get_field_value a f) (get_field_value b f)
                 = Some (str_of (get_field_value a f) < str_of (get_field_value b f))"
      and "(str_of (get_field_value a f) = str_of (get_field_value b f))
                 = (get_field_value a f = get_field_value b f)"
      by (simp_all add: str_lt_less)
  qed
qed

lemma database_list_passes_sort:
  "(sq_has_attr (sr_mapper sr) f
      \<and> sq_attr_to_storage (sr_mapper sr) f \<in> set (sq_columns (sr_mapper sr))
     \<longrightarrow> fst (SqlAlchemyRepository_list sr offset limit (Some f) d)
          = map_result (sq_from_row (sr_mapper sr))
              (eng_rows (sr_engine sr)
                 \<lparr> st_where = None,
                   st_order_by = (sq_attr_to_storage (sr_mapper sr) f, d),
                   st_offset = offset, st_limit = Some limit \<rparr>))
   \<and> (mg_has_attr (mr_mapper mr) f
     \<longrightarrow> fst (MongoRepository_list mr offset limit (Some f) d)
          = map_result (mg_from_document (mr_mapper mr))
              (col_fetch (mr_col mr)
                 \<lparr> cur_query = [],
                   cur_sort = Some (mg_attr_to_storage (mr_mapper mr) f, if d then - 1 else 1),
                   cur_skip = Some offset, cur_limit = Some limit \<rparr>
                 limit))"
  by (simp add: SqlAlchemyRepository_list_def order_and_run_def execute_def
      SqlAlchemyRepository_ensure_indexes_def SqlAlchemyRepository_init_indexes_def
      MongoRepository_list_def to_list_def MongoRepository_ensure_indexes_def
      MongoRepository_init_indexes_def Let_def)

text \<open>
  C9, as amended. In the in-memory repository, when the values of the field \<open>f\<close> are
  all integers or all strings, \<open>list(sort_by=f)\<close> returns a page of the entities in
  non-decreasing order of \<open>f\<close>, and with \<open>sort_desc=True\<close> a page in non-increasing
  order. Both sorts are stable: when the page holds the whole store, entities with
  equal values of \<open>f\<close> keep their insertion order in both, so the descending list is
  the reverse of the ascending one when the values of \<open>f\<close> are pairwise distinct. The
  relational and the document-store repository hand the sort to the database: \<open>list\<close>
  returns the rows of a statement ordered by the column of \<open>f\<close>, descending for
  \<open>sort_desc=True\<close>, and the documents of a cursor sorted by the key of \<open>f\<close> with the
  direction 1 or -1; the order among equal values is the database's.
\<close>

theorem memory_list_sorting:
  assumes "list_all (\<lambda>e. is_int (get_field_value e f)) (map snd (items r))
           \<or> list_all (\<lambda>e. is_str (get_field_value e f)) (map snd (items r))"
  shows "(\<exists>asc desc.
       MemoryRepository_list r offset limit (Some f) False = Inr asc
     \<and> MemoryRepository_list r offset limit (Some f) True = Inr desc
     \<and> sorted_wrt (\<lambda>a b. py_le (get_field_value a f) (get_field_value b f) = Some True) asc
     \<and> sorted_wrt (\<lambda>a b. py_le (get_field_value b f) (get_field_value a f) = Some True) desc
     \<and> (offset = 0 \<and> int (length (items r)) \<le> limit \<longrightarrow>
          mset asc = mset (map snd (items r))
        \<and> mset desc = mset (map snd (items r))
        \<and> (\<forall>k. filter (\<lambda>a. get_field_value a f = k) asc
                = filter (\<lambda>a. get_field_value a f = k) (map snd (items r)))
        \<and> (\<forall>k. filter (\<lambda>a. get_field_value a f = k) desc
                = filter (\<lambda>a. get_field_value a f = k) (map snd (items r)))
        \<and> (distinct (map (\<lambda>a. get_field_value a f) (map snd (items r))) \<longrightarrow> desc = rev asc)))
   \<and> (\<forall>d. sq_has_attr (sr_mapper sr) f
            \<and> sq_attr_to_storage (sr_mapper sr) f \<in> set (sq_columns (sr_mapper sr))
     \<longrightarrow> fst (SqlAlchemyRepository_list sr offset limit (Some f) d)
          = map_result (sq_from_row (sr_mapper sr))
              (eng_rows (sr_engine sr)
                 \<lparr> st_where = None,
                   st_order_by = (sq_attr_to_storage (sr_mapper sr) f, d),
                   st_offset = offset, st_limit = Some limit \<rparr>))
   \<and> (\<forall>d. mg_has_attr (mr_mapper mr) f
     \<longrightarrow> fst (MongoRepository_list mr offset limit (Some f) d)
          = map_result (mg_from_document (mr_mapper mr))
              (col_fetch (mr_col mr)
                 \<lparr> cur_query = [],
                   cur_sort = Some (mg_attr_to_storage (mr_mapper mr) f, if d then - 1 else 1),
                   cur_skip = Some offset, cur_limit = Some limit \<rparr>
                 limit))"
  using memory_list_sorted [OF assms, of offset limit]
    database_list_passes_sort [of sr f offset limit _ mr]
  by blast

text \<open>The hypotheses of C9 at two customers with the totals 5 and 3.\<close>

theorem memory_list_sorting_witness:
  "list_all (\<lambda>e. is_int (get_field_value e ''total'')) (map snd (items two_customers))
   \<and> MemoryRepository_list two_customers 0 50 (Some ''total'') False
       = Inr [Customer 2 ''b@x'' 3, Customer 1 ''a@x'' 5]
   \<and> MemoryRepository_list two_customers 0 50 (Some ''total'') True
       = Inr (rev [Customer 2 ''b@x'' 3, Customer 1 ''a@x'' 5])"
proof -
  have h: "list_all (\<lambda>e. is_int (get_field_value e ''total'')) (map snd (items two_customers))"
    by (simp add: two_customers_def example_defs)
  have d: "distinct (map (\<lambda>a. get_field_value a ''total'') (map snd (items two_customers)))"
    by (simp add: two_customers_def example_defs)
  have p: "(0::int) = 0 \<and> int (length (items two_customers)) \<le> 50"
    by (simp add: two_customers_def)
  have a: "MemoryRepository_list two_customers 0 50 (Some ''total'') False
       = Inr [Customer 2 ''b@x'' 3, Customer 1 ''a@x'' 5]"
    by (simp add: two_customers_def example_defs MemoryRepository_list_def py_sort_def
        comparable_def)
  from memory_list_sorting [of "''total''" two_customers 0 50, OF disjI1, OF h]
  obtain asc desc where
    "MemoryRepository_list two_customers 0 50 (Some ''total'') False = Inr asc"
    "MemoryRepository_list two_customers 0 50 (Some ''total'') True = Inr desc"
    "desc = rev asc"
    using d p by blast
  with a h show ?thesis by simp
qed

text \<open>
  C9 as it was stated fails on ties: two customers with the same total come in
  insertion order in the ascending and in the descending list, which therefore is not
  the reverse.
\<close>

theorem memory_list_descending_keeps_ties:
  "run_ops customers [Add (Customer 1 ''a@x'' 5), Add (Customer 2 ''b@x'' 5)] = Inr tied_customers
   \<and> MemoryRepository_list tied_customers 0 50 (Some ''total'') False
       = Inr [Customer 1 ''a@x'' 5, Customer 2 ''b@x'' 5]
   \<and> MemoryRepository_list tied_customers 0 50 (Some ''total'') True
       = Inr [Customer 1 ''a@x'' 5, Customer 2 ''b@x'' 5]"
  by (simp add: tied_customers_def example_defs memory_defs MemoryRepository_list_def
      py_sort_def comparable_def)

section \<open>References that do not resolve\<close>

subsection \<open>The loop over the references\<close>






subsection \<open>The loop over the roots\<close>







subsection \<open>Population returns\<close>






end
